theory Spec2Isabelle
  imports Complex_Main "HOL-Library.Multiset" "HOL-Library.Product_Lexorder" "HOL-Library.Sublist"
begin

section \<open>Strings as Python's str methods see them\<close>

text \<open>
  The texts handled by \<^verbatim>\<open>src/usecase_ocr.py\<close> are Python strings. They are modelled as
  \<^typ>\<open>string\<close>, a character being its code point: the strings of the model are the Python
  strings whose code points are below 256. On these, \<^verbatim>\<open>str.isspace\<close> (used by \<^verbatim>\<open>strip\<close>,
  \<^verbatim>\<open>split\<close> and the regular expression class \<^verbatim>\<open>\s\<close>) holds for the code points 9 to 13, 28
  to 32, 133 and 160; \<^verbatim>\<open>str.isdigit\<close> holds for the digits 0 to 9 (48 to 57) and for the
  superscript digits two, three and one (178, 179 and 185); \<^verbatim>\<open>str.lower\<close> adds 32 to the
  code points 65 to 90, 192 to 214 and 216 to 222 and leaves the others.
\<close>

definition is_space :: "char \<Rightarrow> bool" where
  "is_space c \<longleftrightarrow>
     (let n = (of_char c :: nat)
      in (9 \<le> n \<and> n \<le> 13) \<or> (28 \<le> n \<and> n \<le> 32) \<or> n = 133 \<or> n = 160)"

definition is_digit :: "char \<Rightarrow> bool" where
  "is_digit c \<longleftrightarrow>
     (let n = (of_char c :: nat) in (48 \<le> n \<and> n \<le> 57) \<or> n = 178 \<or> n = 179 \<or> n = 185)"

definition lower_char :: "char \<Rightarrow> char" where
  "lower_char c =
     (let n = (of_char c :: nat)
      in if (65 \<le> n \<and> n \<le> 90) \<or> (192 \<le> n \<and> n \<le> 214) \<or> (216 \<le> n \<and> n \<le> 222)
         then char_of (n + 32) else c)"

text \<open>\<^verbatim>\<open>s.lower()\<close>\<close>

definition lower :: "string \<Rightarrow> string" where
  "lower s = map lower_char s"

text \<open>\<^verbatim>\<open>s.strip()\<close>\<close>

definition strip :: "string \<Rightarrow> string" where
  "strip s = rev (dropWhile is_space (rev (dropWhile is_space s)))"

text \<open>\<^verbatim>\<open>a.startswith(b)\<close>, and \<^verbatim>\<open>needle in hay\<close> for strings.\<close>

fun starts_with :: "string \<Rightarrow> string \<Rightarrow> bool" where
  "starts_with s [] = True"
| "starts_with [] (p # ps) = False"
| "starts_with (c # cs) (p # ps) = (c = p \<and> starts_with cs ps)"

fun str_in :: "string \<Rightarrow> string \<Rightarrow> bool" where
  "str_in needle [] = (needle = [])"
| "str_in needle (c # cs) = (starts_with (c # cs) needle \<or> str_in needle cs)"

text \<open>\<^verbatim>\<open>s.isdigit()\<close>: false on the empty string.\<close>

definition isdigit :: "string \<Rightarrow> bool" where
  "isdigit s \<longleftrightarrow> s \<noteq> [] \<and> list_all is_digit s"

text \<open>
  \<^verbatim>\<open>int(s)\<close> on a string \<open>s\<close> for which \<^verbatim>\<open>s.isdigit()\<close> holds, the only strings that the
  source converts. \<^verbatim>\<open>int\<close> accepts the decimal digits 0 to 9 only, so it raises
  \<^verbatim>\<open>ValueError\<close> on a superscript digit; it also raises \<^verbatim>\<open>ValueError\<close> on more digits than
  \<^verbatim>\<open>sys.get_int_max_str_digits()\<close>, which is 4300 unless the interpreter is configured
  otherwise (the source does not configure it).
\<close>

datatype py_error = ValueError

definition is_decimal :: "char \<Rightarrow> bool" where
  "is_decimal c \<longleftrightarrow> (let n = (of_char c :: nat) in 48 \<le> n \<and> n \<le> 57)"

definition digit_val :: "char \<Rightarrow> int" where
  "digit_val c = int (of_char c) - 48"

definition decimal_value :: "string \<Rightarrow> int" where
  "decimal_value s = foldl (\<lambda>acc c. 10 * acc + digit_val c) 0 s"

definition int_max_str_digits :: nat where
  "int_max_str_digits = 4300"

definition to_int :: "string \<Rightarrow> py_error + int" where
  "to_int s =
     (if s \<noteq> [] \<and> list_all is_decimal s \<and> length s \<le> int_max_str_digits
      then Inr (decimal_value s) else Inl ValueError)"

text \<open>\<^verbatim>\<open>s.split()\<close>: the maximal runs of non-space characters, in order.\<close>

fun split_from :: "string \<Rightarrow> string \<Rightarrow> string list" where
  "split_from cur [] = (if cur = [] then [] else [cur])"
| "split_from cur (c # cs) =
     (if is_space c then (if cur = [] then split_from [] cs else cur # split_from [] cs)
      else split_from (cur @ [c]) cs)"

definition split :: "string \<Rightarrow> string list" where
  "split s = split_from [] s"

text \<open>\<^verbatim>\<open>s.replace(old, new)\<close>: the non-overlapping occurrences, left to right.\<close>

function replace :: "string \<Rightarrow> string \<Rightarrow> string \<Rightarrow> string" where
  "replace old new [] = (if old = [] then new else [])"
| "replace old new (c # cs) =
     (if old = [] then new @ c # replace old new cs
      else if starts_with (c # cs) old then new @ replace old new (drop (length old) (c # cs))
      else c # replace old new cs)"
  by pat_completeness auto
termination
  by (relation "measure (\<lambda>(old, new, s). length s)") auto

text \<open>\<^verbatim>\<open>sep.join(parts)\<close>\<close>

fun join :: "string \<Rightarrow> string list \<Rightarrow> string" where
  "join sep [] = []"
| "join sep [p] = p"
| "join sep (p # q # ps) = p @ sep @ join sep (q # ps)"

section \<open>The regular expressions of the relation filter\<close>

text \<open>
  The patterns handed to \<^verbatim>\<open>re.search\<close> in \<^verbatim>\<open>is_actor_text\<close> are sequences of three
  kinds of item: a literal character, \<^verbatim>\<open>\s*\<close>, and an optional character \<^verbatim>\<open>c?\<close>.
  \<^verbatim>\<open>re.search\<close> is used as a truth value only, so the model decides whether some match
  exists. The flag \<^verbatim>\<open>re.IGNORECASE\<close> compares letters without case.
\<close>

datatype re_item = Lit char | Spaces | Opt char

definition same_letter :: "char \<Rightarrow> char \<Rightarrow> bool" where
  "same_letter p c \<longleftrightarrow> lower_char p = lower_char c"

fun re_match :: "re_item list \<Rightarrow> string \<Rightarrow> bool" where
  "re_match [] s = True"
| "re_match (Lit p # ps) [] = False"
| "re_match (Lit p # ps) (c # cs) = (same_letter p c \<and> re_match ps cs)"
| "re_match (Spaces # ps) [] = re_match ps []"
| "re_match (Spaces # ps) (c # cs) =
     (re_match ps (c # cs) \<or> (is_space c \<and> re_match (Spaces # ps) cs))"
| "re_match (Opt p # ps) [] = re_match ps []"
| "re_match (Opt p # ps) (c # cs) =
     ((same_letter p c \<and> re_match ps cs) \<or> re_match ps (c # cs))"

fun re_search :: "re_item list \<Rightarrow> string \<Rightarrow> bool" where
  "re_search ps [] = re_match ps []"
| "re_search ps (c # cs) = (re_match ps (c # cs) \<or> re_search ps cs)"

definition lits :: "string \<Rightarrow> re_item list" where
  "lits s = map Lit s"

text \<open>The list \<^verbatim>\<open>uml_patterns\<close>, in the order of the source.\<close>

definition uml_patterns :: "re_item list list" where
  "uml_patterns =
    [ lits ''<<'' @ [Spaces] @ lits ''include'' @ [Spaces] @ lits ''>>'',
      lits ''<<'' @ [Spaces] @ lits ''extend'' @ [Spaces] @ lits ''>>'',
      lits ''<<'' @ [Spaces] @ lits ''include'' @ [Opt CHR ''s'', Spaces] @ lits ''>'' @ [Opt CHR ''>''],
      lits ''<<'' @ [Spaces] @ lits ''extend'' @ [Opt CHR ''s'', Spaces] @ lits ''>'' @ [Opt CHR ''>''],
      lits ''include'' @ [Spaces] @ lits ''>>'',
      lits ''extend'' @ [Spaces] @ lits ''>>'',
      lits ''<<'' @ [Spaces] @ lits ''include'',
      lits ''<<'' @ [Spaces] @ lits ''extend'',
      lits ''tend'' ]"

section \<open>The actor blacklist and the actor/relation filter\<close>

text \<open>
  The constructor stores \<^verbatim>\<open>text.lower().strip()\<close> for every given name whose
  \<^verbatim>\<open>text.strip()\<close> is not empty; \<^verbatim>\<open>add_actor_blacklist\<close> appends in the same way.
\<close>

definition init_blacklist :: "string list \<Rightarrow> string list" where
  "init_blacklist actor_blacklist = map (\<lambda>t. strip (lower t)) (filter (\<lambda>t. strip t \<noteq> []) actor_blacklist)"

definition add_actor_blacklist :: "string list \<Rightarrow> string list \<Rightarrow> string list" where
  "add_actor_blacklist blacklist actor_texts =
     blacklist @ map (\<lambda>t. strip (lower t)) (filter (\<lambda>t. t \<noteq> [] \<and> strip t \<noteq> []) actor_texts)"

definition uml_relations :: "string list" where
  "uml_relations = [''include'', ''extend'', ''includes'', ''extends'', ''includ'', ''extend'']"

definition arrow_patterns :: "string list" where
  "arrow_patterns = [''->'', ''-->'', ''>>'', ''<<'']"

text \<open>Step 1 of \<^verbatim>\<open>is_actor_text\<close>: the loop over the blacklist.\<close>

definition blacklist_match :: "string list \<Rightarrow> string \<Rightarrow> bool" where
  "blacklist_match blacklist text_lower \<longleftrightarrow>
     list_ex (\<lambda>actor_text.
        let actor_text_lower = lower actor_text
        in actor_text_lower = text_lower \<or> str_in actor_text_lower text_lower
           \<or> str_in text_lower actor_text_lower) blacklist"

definition is_actor_text :: "string list \<Rightarrow> string \<Rightarrow> bool" where
  "is_actor_text blacklist text =
     (let text_lower = strip (lower text) in
      if blacklist_match blacklist text_lower then True
      else
        let text_clean = strip (replace ''>>'' [] (replace ''<<'' [] text_lower)) in
        if list_ex (\<lambda>relation. str_in relation text_clean) uml_relations then True
        else if list_ex (\<lambda>pattern. re_search pattern text_lower) uml_patterns then True
        else if list_ex (\<lambda>arrow. str_in arrow text
                   \<and> list_ex (\<lambda>word. str_in word text_lower) [''include'', ''extend''])
                 arrow_patterns then True
        else False)"

section \<open>Boxes\<close>

text \<open>
  A bounding box is the list of four corner points that the OCR engine returns, each a pair
  of coordinates. Coordinates, confidences and every quantity computed from them are
  modelled as real numbers.
\<close>

type_synonym point = "real \<times> real"

datatype box = Box point point point point

fun points :: "box \<Rightarrow> point list" where
  "points (Box p0 p1 p2 p3) = [p0, p1, p2, p3]"

fun corner0 :: "box \<Rightarrow> point" where
  "corner0 (Box p0 p1 p2 p3) = p0"

fun corner2 :: "box \<Rightarrow> point" where
  "corner2 (Box p0 p1 p2 p3) = p2"

text \<open>\<^verbatim>\<open>[point[0] for point in bbox]\<close> and \<^verbatim>\<open>[point[1] for point in bbox]\<close>\<close>

definition x_coords :: "box \<Rightarrow> real list" where
  "x_coords b = map fst (points b)"

definition y_coords :: "box \<Rightarrow> real list" where
  "y_coords b = map snd (points b)"

text \<open>Python's \<^verbatim>\<open>min\<close> and \<^verbatim>\<open>max\<close> of a non-empty list.\<close>

definition min_of :: "real list \<Rightarrow> real" where
  "min_of xs = Min (set xs)"

definition max_of :: "real list \<Rightarrow> real" where
  "max_of xs = Max (set xs)"

text \<open>\<^verbatim>\<open>_expand_bbox\<close>; \<^verbatim>\<open>self.width\<close> and \<^verbatim>\<open>self.height\<close> are parameters.\<close>

definition expand_bbox :: "real \<Rightarrow> real \<Rightarrow> box \<Rightarrow> real \<Rightarrow> real \<Rightarrow> box" where
  "expand_bbox width height bbox expand_x expand_y =
     (let x_min = max 0 (min_of (x_coords bbox) - expand_x);
          y_min = max 0 (min_of (y_coords bbox) - expand_y);
          x_max = min width (max_of (x_coords bbox) + expand_x);
          y_max = min height (max_of (y_coords bbox) + expand_y)
      in Box (x_min, y_min) (x_max, y_min) (x_max, y_max) (x_min, y_max))"

text \<open>\<^verbatim>\<open>_calculate_iou\<close>\<close>

definition calculate_iou :: "box \<Rightarrow> box \<Rightarrow> real" where
  "calculate_iou bbox1 bbox2 =
     (let (x1_1, y1_1) = corner0 bbox1;
          (x2_1, y2_1) = corner2 bbox1;
          (x1_2, y1_2) = corner0 bbox2;
          (x2_2, y2_2) = corner2 bbox2;
          x_left = max x1_1 x1_2;
          y_top = max y1_1 y1_2;
          x_right = min x2_1 x2_2;
          y_bottom = min y2_1 y2_2
      in if x_right < x_left \<or> y_bottom < y_top then 0
         else
           let intersection_area = (x_right - x_left) * (y_bottom - y_top);
               area1 = (x2_1 - x1_1) * (y2_1 - y1_1);
               area2 = (x2_2 - x1_2) * (y2_2 - y1_2);
               union_area = area1 + area2 - intersection_area
           in if union_area > 0 then intersection_area / union_area else 0)"

section \<open>Text relatedness\<close>

text \<open>The last test of \<^verbatim>\<open>_should_merge_texts\<close>: a common word of more than 3 letters.\<close>

definition common_long_word :: "string \<Rightarrow> string \<Rightarrow> bool" where
  "common_long_word t1 t2 =
     (let words1 = set (split t1);
          words2 = set (split t2);
          common_words = words1 \<inter> words2
      in \<exists>word \<in> common_words. length word > 3)"

text \<open>
  \<^verbatim>\<open>_should_merge_texts\<close>: the value it returns, or the \<^verbatim>\<open>ValueError\<close> that one of its two
  calls of \<^verbatim>\<open>int\<close> raises (the first call is made first).
\<close>

definition should_merge_texts :: "string \<Rightarrow> string \<Rightarrow> py_error + bool" where
  "should_merge_texts text1 text2 =
     (let t1 = strip (lower text1);
          t2 = strip (lower text2)
      in if str_in t1 t2 \<or> str_in t2 t1 then Inr True
         else if isdigit t1 \<and> \<not> isdigit t2 then Inr True
         else if isdigit t2 \<and> \<not> isdigit t1 then Inr True
         else if isdigit t1 \<and> isdigit t2 then
           (case to_int t1 of
              Inl e \<Rightarrow> Inl e
            | Inr num1 \<Rightarrow>
                (case to_int t2 of
                   Inl e \<Rightarrow> Inl e
                 | Inr num2 \<Rightarrow>
                     if \<bar>num1 - num2\<bar> \<le> 2 then Inr True else Inr (common_long_word t1 t2)))
         else Inr (common_long_word t1 t2))"

section \<open>Detections\<close>

text \<open>
  The result dictionaries. The final records carry \<^verbatim>\<open>bbox\<close>, \<^verbatim>\<open>text\<close> and
  \<^verbatim>\<open>confidence\<close>; the working dictionaries of the pipeline may carry
  \<^verbatim>\<open>original_bbox\<close> (set by the first loop of \<^verbatim>\<open>run_ocr\<close>) and \<^verbatim>\<open>merged_from\<close>
  (set on merged results only, read with \<^verbatim>\<open>result.get('merged_from', 1)\<close>).

  The keys \<^verbatim>\<open>x_min\<close>, \<^verbatim>\<open>y_min\<close>, \<^verbatim>\<open>x_max\<close>, \<^verbatim>\<open>y_max\<close>, \<^verbatim>\<open>center_x\<close> and
  \<^verbatim>\<open>center_y\<close> are written by the first loop of \<^verbatim>\<open>_merge_similar_boxes\<close> for every result,
  from its \<^verbatim>\<open>bbox\<close>, before anything reads them, and \<^verbatim>\<open>bbox\<close> is not assigned afterwards:
  they are functions of the box here. The key \<^verbatim>\<open>id\<close> is written and never read.
\<close>

record use_case_record =
  bbox :: box
  "text" :: string
  confidence :: real

record detection = use_case_record +
  original_bbox :: "box option"
  merged_from :: "nat option"

definition x_min :: "'a use_case_record_scheme \<Rightarrow> real" where
  "x_min result = min_of (x_coords (bbox result))"

definition y_min :: "'a use_case_record_scheme \<Rightarrow> real" where
  "y_min result = min_of (y_coords (bbox result))"

definition x_max :: "'a use_case_record_scheme \<Rightarrow> real" where
  "x_max result = max_of (x_coords (bbox result))"

definition y_max :: "'a use_case_record_scheme \<Rightarrow> real" where
  "y_max result = max_of (y_coords (bbox result))"

definition center_x :: "'a use_case_record_scheme \<Rightarrow> real" where
  "center_x result = (x_min result + x_max result) / 2"

definition center_y :: "'a use_case_record_scheme \<Rightarrow> real" where
  "center_y result = (y_min result + y_max result) / 2"

section \<open>The fragment merger\<close>

text \<open>
  The body of the inner loop of \<^verbatim>\<open>_merge_similar_boxes\<close>: the value of \<^verbatim>\<open>should_merge\<close>.
  The text test sets it when the call of \<^verbatim>\<open>_should_merge_texts\<close> returns \<^verbatim>\<open>True\<close>. A
  \<^verbatim>\<open>ValueError\<close> of that call is not caught anywhere in the source and ends \<^verbatim>\<open>run_ocr\<close>
  without a result: the merger and the pipeline below are the model of the runs in which
  every such call returns.
\<close>

definition should_merge :: "real \<Rightarrow> detection \<Rightarrow> detection \<Rightarrow> bool" where
  "should_merge iou_threshold ri rj =
     (let iou = calculate_iou (bbox ri) (bbox rj);
          vertical_distance = \<bar>center_y ri - center_y rj\<bar>;
          horizontal_gap = max 0 (x_min rj - x_max ri)
      in if iou > iou_threshold then True
         else if vertical_distance < 15 \<and> horizontal_gap < 100
           then should_merge_texts (text ri) (text rj) = Inr True
         else False)"

text \<open>
  The loop \<^verbatim>\<open>for j in range(i + 1, len(results))\<close>, on the indices still to visit, with
  the state \<^verbatim>\<open>(current_group, used_ids)\<close>.
\<close>

fun inner_loop ::
  "real \<Rightarrow> detection list \<Rightarrow> nat \<Rightarrow> nat list \<Rightarrow> detection list \<times> nat set
     \<Rightarrow> detection list \<times> nat set" where
  "inner_loop th results i [] (current_group, used_ids) = (current_group, used_ids)"
| "inner_loop th results i (j # js) (current_group, used_ids) =
     (if j \<in> used_ids then inner_loop th results i js (current_group, used_ids)
      else if should_merge th (results ! i) (results ! j)
        then inner_loop th results i js (current_group @ [results ! j], insert j used_ids)
      else inner_loop th results i js (current_group, used_ids))"

text \<open>
  The loop \<^verbatim>\<open>for i in range(len(results))\<close>, on the indices still to visit, with the
  state \<^verbatim>\<open>(groups, used_ids)\<close>.
\<close>

fun outer_loop ::
  "real \<Rightarrow> detection list \<Rightarrow> nat list \<Rightarrow> detection list list \<times> nat set
     \<Rightarrow> detection list list \<times> nat set" where
  "outer_loop th results [] (groups, used_ids) = (groups, used_ids)"
| "outer_loop th results (i # rest) (groups, used_ids) =
     (if i \<in> used_ids then outer_loop th results rest (groups, used_ids)
      else
        case inner_loop th results i [i + 1..<length results] ([results ! i], insert i used_ids) of
          (current_group, used_ids') \<Rightarrow>
            outer_loop th results rest (groups @ [current_group], used_ids'))"

text \<open>The groups built from the sorted list.\<close>

definition build_groups :: "real \<Rightarrow> detection list \<Rightarrow> detection list list" where
  "build_groups th results = fst (outer_loop th results [0..<length results] ([], {}))"

text \<open>The \<^verbatim>\<open>else\<close> branch of the last loop: the merged result of a group.\<close>

definition merge_group :: "detection list \<Rightarrow> detection" where
  "merge_group grp =
     (let x_mins = map x_min grp;
          y_mins = map y_min grp;
          x_maxs = map x_max grp;
          y_maxs = map y_max grp;
          sorted_group = sort_key x_min grp;
          combined_text = join '' '' (map text sorted_group);
          avg_confidence = sum_list (map confidence grp) / real (length grp);
          merged_bbox = Box (min_of x_mins, min_of y_mins) (max_of x_maxs, min_of y_mins)
                            (max_of x_maxs, max_of y_maxs) (min_of x_mins, max_of y_maxs)
      in \<lparr>bbox = merged_bbox, text = combined_text, confidence = avg_confidence,
          original_bbox = None, merged_from = Some (length grp)\<rparr>)"

definition merge_groups :: "detection list list \<Rightarrow> detection list" where
  "merge_groups groups = map (\<lambda>grp. if length grp = 1 then grp ! 0 else merge_group grp) groups"

text \<open>\<^verbatim>\<open>_merge_similar_boxes\<close>\<close>

definition sort_reading_order :: "detection list \<Rightarrow> detection list" where
  "sort_reading_order results = sort_key (\<lambda>x. (y_min x, x_min x)) results"

definition merge_similar_boxes :: "detection list \<Rightarrow> real \<Rightarrow> detection list" where
  "merge_similar_boxes results iou_threshold =
     (if results = [] then []
      else merge_groups (build_groups iou_threshold (sort_reading_order results)))"

section \<open>The duplicate eliminator\<close>

text \<open>The local function \<^verbatim>\<open>text_similarity\<close> of \<^verbatim>\<open>_remove_duplicate_cases\<close>.\<close>

definition text_similarity :: "string \<Rightarrow> string \<Rightarrow> real" where
  "text_similarity text1 text2 =
     (let text1_lower = strip (lower text1);
          text2_lower = strip (lower text2)
      in if str_in text1_lower text2_lower \<or> str_in text2_lower text1_lower then 1
         else
           let words1 = set (split text1_lower);
               words2 = set (split text2_lower)
           in if words1 = {} \<or> words2 = {} then 0
              else real (card (words1 \<inter> words2)) / real (card (words1 \<union> words2)))"

text \<open>The test of the inner loop: \<^verbatim>\<open>similarity > similarity_threshold or iou > 0.5\<close>.\<close>

definition is_duplicate :: "real \<Rightarrow> detection \<Rightarrow> detection \<Rightarrow> bool" where
  "is_duplicate similarity_threshold result unique \<longleftrightarrow>
     (let similarity = text_similarity (text result) (text unique);
          iou = calculate_iou (bbox result) (bbox unique)
      in similarity > similarity_threshold \<or> iou > 0.5)"

text \<open>The loop \<^verbatim>\<open>for result in results\<close>, with the state \<^verbatim>\<open>unique_results\<close>.\<close>

fun scan_unique :: "real \<Rightarrow> detection list \<Rightarrow> detection list \<Rightarrow> detection list" where
  "scan_unique th [] unique_results = unique_results"
| "scan_unique th (result # rest) unique_results =
     (if list_ex (is_duplicate th result) unique_results then scan_unique th rest unique_results
      else scan_unique th rest (unique_results @ [result]))"

text \<open>\<^verbatim>\<open>results.sort(key=lambda x: x['confidence'], reverse=True)\<close>: stable, descending.\<close>

definition sort_by_confidence :: "detection list \<Rightarrow> detection list" where
  "sort_by_confidence results = sort_key (\<lambda>x. - confidence x) results"

text \<open>\<^verbatim>\<open>_remove_duplicate_cases\<close>\<close>

definition remove_duplicate_cases :: "detection list \<Rightarrow> real \<Rightarrow> detection list" where
  "remove_duplicate_cases results similarity_threshold =
     (if results = [] then []
      else scan_unique similarity_threshold (sort_by_confidence results) [])"

section \<open>The pipeline\<close>

text \<open>
  \<^verbatim>\<open>run_ocr\<close> on the list \<^verbatim>\<open>self.results\<close> that the OCR engine returned; the image size and
  the blacklist of the object are parameters. The four stages are named, in order.
\<close>

type_synonym ocr_result = "box \<times> string \<times> real"

definition process_results :: "real \<Rightarrow> real \<Rightarrow> ocr_result list \<Rightarrow> real \<Rightarrow> detection list" where
  "process_results width height results confidence_threshold =
     map (\<lambda>(bbox, text, confidence).
            \<lparr>bbox = expand_bbox width height bbox 30 25, text = strip text,
             confidence = confidence, original_bbox = Some bbox, merged_from = None\<rparr>)
         (filter (\<lambda>(bbox, text, confidence).
                    \<not> confidence < confidence_threshold \<and> \<not> length (strip text) < 2) results)"

definition filter_actors :: "string list \<Rightarrow> detection list \<Rightarrow> use_case_record list" where
  "filter_actors blacklist unique_results =
     map (\<lambda>result. \<lparr>bbox = bbox result, text = text result, confidence = confidence result\<rparr>)
         (filter (\<lambda>result. \<not> is_actor_text blacklist (text result)) unique_results)"

definition run_ocr ::
  "real \<Rightarrow> real \<Rightarrow> string list \<Rightarrow> ocr_result list \<Rightarrow> real \<Rightarrow> use_case_record list" where
  "run_ocr width height blacklist results confidence_threshold =
     (let processed_results = process_results width height results confidence_threshold;
          merged_results = merge_similar_boxes processed_results 0.2;
          unique_results = remove_duplicate_cases merged_results 0.7
      in filter_actors blacklist unique_results)"

section \<open>Notions used to state the properties\<close>

text \<open>
  The quantities that \<^verbatim>\<open>_calculate_iou\<close> computes on the way, by the names of its local
  variables: the area of a box from its first and third corner, the test for an empty
  intersection, the intersection area and the union area.
\<close>

definition box_area :: "box \<Rightarrow> real" where
  "box_area b = (let (x1, y1) = corner0 b; (x2, y2) = corner2 b in (x2 - x1) * (y2 - y1))"

definition no_intersection :: "box \<Rightarrow> box \<Rightarrow> bool" where
  "no_intersection bbox1 bbox2 \<longleftrightarrow>
     (let (x1_1, y1_1) = corner0 bbox1;
          (x2_1, y2_1) = corner2 bbox1;
          (x1_2, y1_2) = corner0 bbox2;
          (x2_2, y2_2) = corner2 bbox2
      in min x2_1 x2_2 < max x1_1 x1_2 \<or> min y2_1 y2_2 < max y1_1 y1_2)"

definition intersection_area :: "box \<Rightarrow> box \<Rightarrow> real" where
  "intersection_area bbox1 bbox2 =
     (let (x1_1, y1_1) = corner0 bbox1;
          (x2_1, y2_1) = corner2 bbox1;
          (x1_2, y1_2) = corner0 bbox2;
          (x2_2, y2_2) = corner2 bbox2
      in (min x2_1 x2_2 - max x1_1 x1_2) * (min y2_1 y2_2 - max y1_1 y1_2))"

definition union_area :: "box \<Rightarrow> box \<Rightarrow> real" where
  "union_area bbox1 bbox2 = box_area bbox1 + box_area bbox2 - intersection_area bbox1 bbox2"


text \<open>A point lies in the rectangle spanned by the first and third corner of a box.\<close>

definition in_box :: "box \<Rightarrow> point \<Rightarrow> bool" where
  "in_box b p \<longleftrightarrow>
     (let (x1, y1) = corner0 b; (x2, y2) = corner2 b; (x, y) = p
      in x1 \<le> x \<and> x \<le> x2 \<and> y1 \<le> y \<and> y \<le> y2)"

text \<open>Every corner of a box lies within the image bounds.\<close>

definition within_image :: "real \<Rightarrow> real \<Rightarrow> box \<Rightarrow> bool" where
  "within_image width height b \<longleftrightarrow>
     list_all (\<lambda>(x, y). 0 \<le> x \<and> x \<le> width \<and> 0 \<le> y \<and> y \<le> height) (points b)"

text \<open>A list of detections is in descending order of confidence.\<close>

definition confidence_descending :: "detection list \<Rightarrow> bool" where
  "confidence_descending rs \<longleftrightarrow> sorted_wrt (\<lambda>a b. confidence b \<le> confidence a) rs"

text \<open>The number of fragments of a result, as \<^verbatim>\<open>result.get('merged_from', 1)\<close> reads it.\<close>

definition merged_count :: "detection \<Rightarrow> nat" where
  "merged_count result = (case merged_from result of None \<Rightarrow> 1 | Some k \<Rightarrow> k)"

text \<open>
  The state of the outer loop of the merger accounts for the results: the groups hold, with
  multiplicity, the results at the indices of \<^verbatim>\<open>used_ids\<close>, and no group is empty.
\<close>

definition accounted :: "detection list \<Rightarrow> detection list list \<Rightarrow> nat set \<Rightarrow> bool" where
  "accounted results groups used_ids \<longleftrightarrow>
     finite used_ids
     \<and> mset (concat groups) = image_mset ((!) results) (mset_set used_ids)
     \<and> [] \<notin> set groups"

section \<open>Facts about the string operations\<close>

lemma starts_with_iff: "starts_with s p \<longleftrightarrow> (\<exists>r. s = p @ r)"
  by (induction s p rule: starts_with.induct) auto

lemma str_in_iff: "str_in needle hay \<longleftrightarrow> (\<exists>p s. hay = p @ needle @ s)"
proof (induction hay)
  case Nil
  then show ?case by auto
next
  case (Cons c cs)
  show ?case
  proof
    assume "str_in needle (c # cs)"
    then consider "starts_with (c # cs) needle" | "str_in needle cs" by auto
    then show "\<exists>p s. c # cs = p @ needle @ s"
    proof cases
      case 1
      then obtain r where "c # cs = needle @ r" by (auto simp: starts_with_iff)
      then have "c # cs = [] @ needle @ r" by simp
      then show ?thesis by blast
    next
      case 2
      then obtain p s where "cs = p @ needle @ s" using Cons.IH by blast
      then have "c # cs = (c # p) @ needle @ s" by simp
      then show ?thesis by blast
    qed
  next
    assume "\<exists>p s. c # cs = p @ needle @ s"
    then obtain p s where ps: "c # cs = p @ needle @ s" by blast
    show "str_in needle (c # cs)"
    proof (cases p)
      case Nil
      then have "starts_with (c # cs) needle" using ps by (auto simp: starts_with_iff)
      then show ?thesis by simp
    next
      case (Cons d ds)
      then have "cs = ds @ needle @ s" using ps by simp
      then have "str_in needle cs" using Cons.IH by blast
      then show ?thesis by simp
    qed
  qed
qed

lemma str_in_refl: "str_in s s"
  unfolding str_in_iff by (metis append_Nil append_Nil2)

lemma str_in_Nil: "str_in [] s"
  unfolding str_in_iff by (metis append_Nil)

lemma str_in_Nil_right: "str_in s [] \<longleftrightarrow> s = []"
  by simp

lemma str_in_strip: "str_in (strip s) s"
proof -
  let ?t = "dropWhile is_space s"
  have "s = takeWhile is_space s @ ?t" by simp
  moreover have "rev ?t = takeWhile is_space (rev ?t) @ dropWhile is_space (rev ?t)" by simp
  then have "?t = rev (dropWhile is_space (rev ?t)) @ rev (takeWhile is_space (rev ?t))"
    by (metis rev_append rev_rev_ident)
  ultimately have "s = takeWhile is_space s @ strip s @ rev (takeWhile is_space (rev ?t))"
    by (simp add: strip_def)
  then show ?thesis unfolding str_in_iff by blast
qed

lemma lower_char_idem: "lower_char (lower_char c) = lower_char c"
  by (simp add: lower_char_def Let_def)

lemma lower_idem: "lower (lower s) = lower s"
  by (simp add: lower_def lower_char_idem)

lemma is_space_lower_char: "is_space (lower_char c) = is_space c"
  by (auto simp: lower_char_def is_space_def Let_def)

lemma strip_Nil_iff: "strip s = [] \<longleftrightarrow> list_all is_space s"
proof
  assume "strip s = []"
  then have d: "\<forall>x \<in> set (dropWhile is_space s). is_space x"
    by (simp add: strip_def dropWhile_eq_Nil_conv)
  have "set s = set (takeWhile is_space s) \<union> set (dropWhile is_space s)"
    by (metis set_append takeWhile_dropWhile_id)
  then show "list_all is_space s"
    using d by (auto simp: list_all_iff dest: set_takeWhileD)
next
  assume "list_all is_space s"
  then have dw: "dropWhile is_space s = []" by (simp add: list_all_iff dropWhile_eq_Nil_conv)
  show "strip s = []" unfolding strip_def dw by simp
qed

lemma split_from_Nil_iff: "split_from cur s = [] \<longleftrightarrow> cur = [] \<and> list_all is_space s"
  by (induction cur s rule: split_from.induct) auto

lemma split_Nil_iff: "split s = [] \<longleftrightarrow> strip s = []"
  by (simp add: split_def split_from_Nil_iff strip_Nil_iff)

lemma strip_lower: "strip (lower s) = lower (strip s)"
proof -
  have c: "is_space \<circ> lower_char = is_space" by (auto simp: is_space_lower_char)
  show ?thesis
    by (simp add: strip_def lower_def dropWhile_map rev_map c)
qed

section \<open>Intersection over union\<close>

lemma calculate_iou_unfold:
  "calculate_iou a b =
     (if no_intersection a b then 0
      else if union_area a b > 0 then intersection_area a b / union_area a b else 0)"
  by (cases a; cases b)
     (simp add: calculate_iou_def no_intersection_def union_area_def intersection_area_def
        box_area_def Let_def split: prod.splits)

lemma no_intersection_sym: "no_intersection a b = no_intersection b a"
  by (cases a; cases b) (auto simp: no_intersection_def Let_def split: prod.splits)

lemma intersection_area_sym: "intersection_area a b = intersection_area b a"
  by (cases a; cases b) (simp add: intersection_area_def Let_def min.commute max.commute split: prod.splits)

lemma union_area_sym: "union_area a b = union_area b a"
  by (simp add: union_area_def intersection_area_sym [of a b])

lemma calculate_iou_sym: "calculate_iou a b = calculate_iou b a"
  by (simp add: calculate_iou_unfold no_intersection_sym [of a b] intersection_area_sym [of a b]
      union_area_sym [of a b])

lemma intersection_area_bounds:
  assumes "\<not> no_intersection a b"
  shows "0 \<le> intersection_area a b" and "intersection_area a b \<le> box_area a"
proof -
  obtain x11 y11 p1 x21 y21 p3 where a: "a = Box (x11, y11) p1 (x21, y21) p3"
    by (cases a) (metis surj_pair)
  obtain x12 y12 q1 x22 y22 q3 where b: "b = Box (x12, y12) q1 (x22, y22) q3"
    by (cases b) (metis surj_pair)
  let ?w = "min x21 x22 - max x11 x12"
  let ?h = "min y21 y22 - max y11 y12"
  have w: "0 \<le> ?w" and h: "0 \<le> ?h"
    using assms by (auto simp: a b no_intersection_def)
  have w': "?w \<le> x21 - x11" and h': "?h \<le> y21 - y11" by auto
  have ia: "intersection_area a b = ?w * ?h" by (simp add: a b intersection_area_def)
  show "0 \<le> intersection_area a b" using w h by (simp add: ia)
  have "?w * ?h \<le> (x21 - x11) * (y21 - y11)"
    using w h w' h' by (intro mult_mono) auto
  moreover have "box_area a = (x21 - x11) * (y21 - y11)" by (simp add: a box_area_def)
  ultimately show "intersection_area a b \<le> box_area a" using ia by simp
qed

lemma calculate_iou_bounds: "0 \<le> calculate_iou a b \<and> calculate_iou a b \<le> 1"
proof (cases "no_intersection a b")
  case True
  then show ?thesis by (simp add: calculate_iou_unfold)
next
  case False
  then have nb: "\<not> no_intersection b a" by (simp add: no_intersection_sym [of a b])
  have i0: "0 \<le> intersection_area a b" and ia: "intersection_area a b \<le> box_area a"
    using intersection_area_bounds [OF False] by auto
  have ib: "intersection_area a b \<le> box_area b"
    using intersection_area_bounds(2) [OF nb] by (simp add: intersection_area_sym [of a b])
  have iu: "intersection_area a b \<le> union_area a b"
    using ia ib by (simp add: union_area_def)
  show ?thesis
    using False i0 iu by (simp add: calculate_iou_unfold)
qed

lemma calculate_iou_self:
  assumes "x1 < x2" and "y1 < y2"
  shows "calculate_iou (Box (x1, y1) p1 (x2, y2) p3) (Box (x1, y1) p1 (x2, y2) p3) = 1"
  using assms by (simp add: calculate_iou_def)

lemma common_point:
  assumes "\<not> no_intersection a b"
  shows "\<exists>p. in_box a p \<and> in_box b p"
proof -
  obtain x11 y11 p1 x21 y21 p3 where a: "a = Box (x11, y11) p1 (x21, y21) p3"
    by (cases a) (metis surj_pair)
  obtain x12 y12 q1 x22 y22 q3 where b: "b = Box (x12, y12) q1 (x22, y22) q3"
    by (cases b) (metis surj_pair)
  have "in_box a (max x11 x12, max y11 y12) \<and> in_box b (max x11 x12, max y11 y12)"
    using assms by (auto simp: a b no_intersection_def in_box_def)
  then show ?thesis by blast
qed

text \<open>
  C6. \<^verbatim>\<open>_calculate_iou\<close> is symmetric; it is 1 on a box taken with itself when the first
  corner is the top-left one, the third the bottom-right one and the area is positive; its
  value always lies between 0 and 1; it is 0 when the two rectangles do not intersect (by the
  test of the code, and also when they have no point in common) and when the union area is 0.
\<close>

theorem calculate_iou_symmetric_bounded:
  "calculate_iou a b = calculate_iou b a
   \<and> (x1 < x2 \<and> y1 < y2 \<longrightarrow>
        calculate_iou (Box (x1, y1) p1 (x2, y2) p3) (Box (x1, y1) p1 (x2, y2) p3) = 1)
   \<and> 0 \<le> calculate_iou a b \<and> calculate_iou a b \<le> 1
   \<and> (no_intersection a b \<longrightarrow> calculate_iou a b = 0)
   \<and> ((\<forall>p. \<not> (in_box a p \<and> in_box b p)) \<longrightarrow> calculate_iou a b = 0)
   \<and> (union_area a b = 0 \<longrightarrow> calculate_iou a b = 0)"
proof -
  have n: "calculate_iou a b = 0" if "no_intersection a b"
    using that by (simp add: calculate_iou_unfold)
  have d: "calculate_iou a b = 0" if "\<forall>p. \<not> (in_box a p \<and> in_box b p)"
    using that common_point [of a b] n by blast
  have u: "calculate_iou a b = 0" if "union_area a b = 0"
    using that by (simp add: calculate_iou_unfold)
  show ?thesis
    using calculate_iou_sym [of a b] calculate_iou_self [of x1 x2 y1 y2 p1 p3]
      calculate_iou_bounds [of a b] n d u by blast
qed

text \<open>
  The theorem at two overlapping boxes (a quarter of each is shared), at a box with itself, at
  two boxes apart, and at a box that is a single point.
\<close>

theorem calculate_iou_symmetric_bounded_witness:
  "calculate_iou (Box (0, 0) (10, 0) (10, 10) (0, 10)) (Box (5, 5) (15, 5) (15, 15) (5, 15)) = 1 / 7
   \<and> calculate_iou (Box (5, 5) (15, 5) (15, 15) (5, 15)) (Box (0, 0) (10, 0) (10, 10) (0, 10)) = 1 / 7
   \<and> (0 :: real) < 10
   \<and> calculate_iou (Box (0, 0) (10, 0) (10, 10) (0, 10)) (Box (0, 0) (10, 0) (10, 10) (0, 10)) = 1
   \<and> no_intersection (Box (0, 0) (10, 0) (10, 10) (0, 10)) (Box (20, 0) (30, 0) (30, 10) (20, 10))
   \<and> calculate_iou (Box (0, 0) (10, 0) (10, 10) (0, 10)) (Box (20, 0) (30, 0) (30, 10) (20, 10)) = 0
   \<and> union_area (Box (3, 3) (3, 3) (3, 3) (3, 3)) (Box (3, 3) (3, 3) (3, 3) (3, 3)) = 0
   \<and> calculate_iou (Box (3, 3) (3, 3) (3, 3) (3, 3)) (Box (3, 3) (3, 3) (3, 3) (3, 3)) = 0"
proof -
  let ?A = "Box (0, 0) (10, 0) (10, 10) (0, 10)"
  let ?B = "Box (5, 5) (15, 5) (15, 15) (5, 15)"
  let ?C = "Box (20, 0) (30, 0) (30, 10) (20, 10)"
  let ?D = "Box (3, 3) (3, 3) (3, 3) (3, 3)"
  have ab: "calculate_iou ?A ?B = 1 / 7" by (simp add: calculate_iou_def)
  have lt: "(0 :: real) < 10" by simp
  have nc: "no_intersection ?A ?C" by (simp add: no_intersection_def)
  have ud: "union_area ?D ?D = 0" by (simp add: union_area_def box_area_def intersection_area_def)
  have ba: "calculate_iou ?B ?A = 1 / 7"
    using calculate_iou_symmetric_bounded [of ?A ?B 0 10 0 10 "(10, 0)" "(0, 10)"] ab by simp
  have aa: "calculate_iou ?A ?A = 1"
    using calculate_iou_symmetric_bounded [of ?A ?B 0 10 0 10 "(10, 0)" "(0, 10)"] lt by blast
  have ac: "calculate_iou ?A ?C = 0"
    using calculate_iou_symmetric_bounded [of ?A ?C 0 10 0 10 "(10, 0)" "(0, 10)"] nc by blast
  have dd: "calculate_iou ?D ?D = 0"
    using calculate_iou_symmetric_bounded [of ?D ?D 0 10 0 10 "(10, 0)" "(0, 10)"] ud by blast
  show ?thesis using ab ba lt aa nc ac ud dd by blast
qed

section \<open>Box expansion\<close>

lemma min_of_le_max_of_x: "min_of (x_coords b) \<le> max_of (x_coords b)"
  by (cases b) (auto simp: min_of_def max_of_def x_coords_def)

lemma min_of_le_max_of_y: "min_of (y_coords b) \<le> max_of (y_coords b)"
  by (cases b) (auto simp: min_of_def max_of_def y_coords_def)

text \<open>
  C7, as stated, fails: a box that lies to the right of the image, further away than the
  margin, is expanded to a box whose left edge is beyond the image width.
\<close>

theorem expand_bbox_outside_image:
  "\<not> within_image 100 100 (expand_bbox 100 100 (Box (200, 10) (210, 10) (210, 20) (200, 20)) 30 25)"
  by (simp add: within_image_def expand_bbox_def min_of_def max_of_def x_coords_def y_coords_def)

text \<open>
  C7, amended. \<^verbatim>\<open>_expand_bbox\<close> returns the rectangle with corners top-left, top-right,
  bottom-right, bottom-left built from the envelope of the box grown by the margins, the left
  and top edge clamped below at 0 and the right and bottom edge clamped above at the image
  size. When the margins and the image size are not negative and the grown envelope still
  meets the image (as it does for every box inside the image), the edges are ordered and
  every coordinate of the result lies within the image bounds.
\<close>

theorem expand_bbox_clamped:
  fixes width height expand_x expand_y :: real and bbox :: box
  defines "xl \<equiv> max 0 (min_of (x_coords bbox) - expand_x)"
    and "yt \<equiv> max 0 (min_of (y_coords bbox) - expand_y)"
    and "xr \<equiv> min width (max_of (x_coords bbox) + expand_x)"
    and "yb \<equiv> min height (max_of (y_coords bbox) + expand_y)"
  shows "expand_bbox width height bbox expand_x expand_y = Box (xl, yt) (xr, yt) (xr, yb) (xl, yb)
    \<and> 0 \<le> xl \<and> 0 \<le> yt \<and> xr \<le> width \<and> yb \<le> height
    \<and> (0 \<le> expand_x \<and> 0 \<le> expand_y \<and> 0 \<le> width \<and> 0 \<le> height
        \<and> min_of (x_coords bbox) - expand_x \<le> width \<and> 0 \<le> max_of (x_coords bbox) + expand_x
        \<and> min_of (y_coords bbox) - expand_y \<le> height \<and> 0 \<le> max_of (y_coords bbox) + expand_y
       \<longrightarrow> xl \<le> xr \<and> yt \<le> yb
           \<and> within_image width height (expand_bbox width height bbox expand_x expand_y))"
proof -
  have e: "expand_bbox width height bbox expand_x expand_y = Box (xl, yt) (xr, yt) (xr, yb) (xl, yb)"
    by (simp add: expand_bbox_def xl_def yt_def xr_def yb_def Let_def)
  have x: "min_of (x_coords bbox) \<le> max_of (x_coords bbox)" by (rule min_of_le_max_of_x)
  have y: "min_of (y_coords bbox) \<le> max_of (y_coords bbox)" by (rule min_of_le_max_of_y)
  have b: "0 \<le> xl \<and> 0 \<le> yt \<and> xr \<le> width \<and> yb \<le> height"
    by (simp add: xl_def yt_def xr_def yb_def)
  have "xl \<le> xr \<and> yt \<le> yb \<and> within_image width height (Box (xl, yt) (xr, yt) (xr, yb) (xl, yb))"
    if "0 \<le> expand_x \<and> 0 \<le> expand_y \<and> 0 \<le> width \<and> 0 \<le> height
        \<and> min_of (x_coords bbox) - expand_x \<le> width \<and> 0 \<le> max_of (x_coords bbox) + expand_x
        \<and> min_of (y_coords bbox) - expand_y \<le> height \<and> 0 \<le> max_of (y_coords bbox) + expand_y"
    using that x y by (auto simp: within_image_def xl_def yt_def xr_def yb_def)
  then show ?thesis using e b by simp
qed

text \<open>
  The theorem at a box near the left upper corner of an image of 640 by 480 pixels, with the
  margins of the pipeline: the left and top edge are clamped at 0.
\<close>

theorem expand_bbox_clamped_witness:
  "(0 :: real) \<le> 30 \<and> (0 :: real) \<le> 25 \<and> (0 :: real) \<le> 640 \<and> (0 :: real) \<le> 480
   \<and> min_of (x_coords (Box (10, 5) (50, 5) (50, 20) (10, 20))) - 30 \<le> 640
   \<and> 0 \<le> max_of (x_coords (Box (10, 5) (50, 5) (50, 20) (10, 20))) + 30
   \<and> min_of (y_coords (Box (10, 5) (50, 5) (50, 20) (10, 20))) - 25 \<le> 480
   \<and> 0 \<le> max_of (y_coords (Box (10, 5) (50, 5) (50, 20) (10, 20))) + 25
   \<and> expand_bbox 640 480 (Box (10, 5) (50, 5) (50, 20) (10, 20)) 30 25
       = Box (0, 0) (80, 0) (80, 45) (0, 45)
   \<and> within_image 640 480 (expand_bbox 640 480 (Box (10, 5) (50, 5) (50, 20) (10, 20)) 30 25)"
proof -
  let ?b = "Box (10, 5) (50, 5) (50, 20) (10, 20)"
  have h: "(0 :: real) \<le> 30 \<and> (0 :: real) \<le> 25 \<and> (0 :: real) \<le> 640 \<and> (0 :: real) \<le> 480
     \<and> min_of (x_coords ?b) - 30 \<le> 640 \<and> 0 \<le> max_of (x_coords ?b) + 30
     \<and> min_of (y_coords ?b) - 25 \<le> 480 \<and> 0 \<le> max_of (y_coords ?b) + 25"
    by (simp add: min_of_def max_of_def x_coords_def y_coords_def)
  have v: "Box (max 0 (min_of (x_coords ?b) - 30), max 0 (min_of (y_coords ?b) - 25))
               (min 640 (max_of (x_coords ?b) + 30), max 0 (min_of (y_coords ?b) - 25))
               (min 640 (max_of (x_coords ?b) + 30), min 480 (max_of (y_coords ?b) + 25))
               (max 0 (min_of (x_coords ?b) - 30), min 480 (max_of (y_coords ?b) + 25))
           = Box (0, 0) (80, 0) (80, 45) (0, 45)"
    by (simp add: min_of_def max_of_def x_coords_def y_coords_def)
  note t = expand_bbox_clamped [of 640 480 ?b 30 25]
  have e: "expand_bbox 640 480 ?b 30 25 = Box (0, 0) (80, 0) (80, 45) (0, 45)"
    using t v by simp
  have w: "within_image 640 480 (expand_bbox 640 480 ?b 30 25)"
    using t h by blast
  show ?thesis using h e w by blast
qed

section \<open>The actor/relation filter\<close>

lemma strip_lower_include: "strip (lower ''<<include>>'') = ''<<include>>''"
  by code_simp

lemma clean_include:
  "strip (replace ''>>'' [] (replace ''<<'' [] ''<<include>>'')) = ''include''"
  by code_simp

lemma include_in_relations: "list_ex (\<lambda>relation. str_in relation ''include'') uml_relations"
  by code_simp

text \<open>
  C2. Whatever the blacklist is, \<^verbatim>\<open>is_actor_text\<close> is true on \<^verbatim>\<open><<include>>\<close>: when the
  blacklist does not match, the text without its markers is \<^verbatim>\<open>include\<close>, which contains
  the first keyword; so the last loop of \<^verbatim>\<open>run_ocr\<close> drops every detection with this text.
\<close>

theorem include_stereotype_filtered:
  "is_actor_text blacklist ''<<include>>''
   \<and> filter_actors blacklist
        [\<lparr>bbox = b, text = ''<<include>>'', confidence = c, original_bbox = ob, merged_from = mf\<rparr>] = []"
proof -
  have "is_actor_text blacklist ''<<include>>''"
    by (simp only: is_actor_text_def Let_def strip_lower_include clean_include
        include_in_relations if_True if_cancel)
  then show ?thesis by (simp add: filter_actors_def)
qed

text \<open>The theorem at the empty blacklist and at a blacklist of one actor.\<close>

theorem include_stereotype_filtered_witness:
  "is_actor_text [] ''<<include>>'' \<and> is_actor_text [''cliente''] ''<<include>>''"
  using include_stereotype_filtered [of "[]"] include_stereotype_filtered [of "[''cliente'']"]
  by blast

lemma blacklist_match_iff:
  "blacklist_match blacklist t \<longleftrightarrow>
     (\<exists>a \<in> set blacklist. lower a = t \<or> str_in (lower a) t \<or> str_in t (lower a))"
  by (simp add: blacklist_match_def list_ex_iff Let_def)

lemma blacklist_match_actor:
  "blacklist_match blacklist (strip (lower t)) \<Longrightarrow> is_actor_text blacklist t"
  by (simp add: is_actor_text_def Let_def)

lemma filter_actors_rejects:
  "r \<in> set (filter_actors blacklist rs) \<Longrightarrow> \<not> is_actor_text blacklist (text r)"
  by (auto simp: filter_actors_def)

lemma init_blacklist_lower: "a \<in> set (init_blacklist names) \<Longrightarrow> lower a = a"
  by (auto simp: init_blacklist_def strip_lower [symmetric] lower_idem)

text \<open>
  C1. For an actor name \<open>A\<close> of the blacklist: no record of the output of \<^verbatim>\<open>run_ocr\<close> has a
  text on which \<^verbatim>\<open>is_actor_text\<close> is true, and none has the text \<open>A\<close>; \<^verbatim>\<open>is_actor_text\<close>
  is true on every text whose lowercased trimmed form equals the (lowercased) name, contains
  it or is contained in it. The names that the constructor stores are lowercase already.
\<close>

theorem blacklist_exclusion:
  assumes "A \<in> set blacklist"
  shows "(\<forall>r \<in> set (run_ocr width height blacklist results confidence_threshold).
            \<not> is_actor_text blacklist (text r) \<and> text r \<noteq> A)
    \<and> (\<forall>t. lower A = strip (lower t) \<or> str_in (lower A) (strip (lower t))
              \<or> str_in (strip (lower t)) (lower A)
           \<longrightarrow> is_actor_text blacklist t)
    \<and> (blacklist = init_blacklist names \<longrightarrow> lower A = A)"
proof -
  have m: "is_actor_text blacklist t"
    if "lower A = strip (lower t) \<or> str_in (lower A) (strip (lower t))
        \<or> str_in (strip (lower t)) (lower A)" for t
    using that assms blacklist_match_actor [of blacklist t] blacklist_match_iff by blast
  have a: "is_actor_text blacklist A"
    using m [of A] str_in_strip [of "lower A"] by blast
  have r: "\<not> is_actor_text blacklist (text r) \<and> text r \<noteq> A"
    if "r \<in> set (run_ocr width height blacklist results confidence_threshold)" for r
  proof -
    have "\<not> is_actor_text blacklist (text r)"
      using that filter_actors_rejects unfolding run_ocr_def Let_def by blast
    then show ?thesis using a by auto
  qed
  show ?thesis using m r assms init_blacklist_lower by blast
qed

text \<open>
  The theorem on the scenario of the specification: two detections of the actor and one use
  case, with the blacklist that the constructor builds from the name \<^verbatim>\<open>Actor1\<close>.
\<close>

theorem blacklist_exclusion_witness:
  "''actor1'' \<in> set (init_blacklist [''Actor1''])
   \<and> map text (run_ocr 1000 1000 (init_blacklist [''Actor1''])
        [(Box (10, 100) (60, 100) (60, 120) (10, 120), ''Actor1'', 9 / 10),
         (Box (12, 101) (61, 101) (61, 121) (12, 121), ''Actor1'', 85 / 100),
         (Box (500, 500) (600, 500) (600, 520) (500, 520), ''Crear pedido'', 6 / 10)] (3 / 10))
       = [''Crear pedido'']
   \<and> list_all (\<lambda>r. text r \<noteq> ''actor1'') (run_ocr 1000 1000 (init_blacklist [''Actor1''])
        [(Box (10, 100) (60, 100) (60, 120) (10, 120), ''Actor1'', 9 / 10),
         (Box (12, 101) (61, 101) (61, 121) (12, 121), ''Actor1'', 85 / 100),
         (Box (500, 500) (600, 500) (600, 520) (500, 520), ''Crear pedido'', 6 / 10)] (3 / 10))
   \<and> lower ''actor1'' = strip (lower '' Actor1 '')
   \<and> is_actor_text (init_blacklist [''Actor1'']) '' Actor1 ''"
proof -
  let ?bl = "init_blacklist [''Actor1'']"
  let ?raw = "[(Box (10, 100) (60, 100) (60, 120) (10, 120), ''Actor1'', 9 / 10),
         (Box (12, 101) (61, 101) (61, 121) (12, 121), ''Actor1'', 85 / 100),
         (Box (500, 500) (600, 500) (600, 520) (500, 520), ''Crear pedido'', 6 / 10)]"
  have h: "''actor1'' \<in> set ?bl" by code_simp
  have o: "map text (run_ocr 1000 1000 ?bl ?raw (3 / 10)) = [''Crear pedido'']" by code_simp
  have l: "lower ''actor1'' = strip (lower '' Actor1 '')" by code_simp
  note t = blacklist_exclusion [OF h, of 1000 1000 ?raw "3 / 10" "[''Actor1'']"]
  have q: "list_all (\<lambda>r. text r \<noteq> ''actor1'') (run_ocr 1000 1000 ?bl ?raw (3 / 10))"
    unfolding list_all_iff using t by blast
  have i: "is_actor_text ?bl '' Actor1 ''" using t l by blast
  show ?thesis using h o q l i by blast
qed

section \<open>Text relatedness and text similarity\<close>

lemma py_error_ValueError: "(e :: py_error) = ValueError"
  by (cases e) simp

lemma py_error_eq: "(e :: py_error) = e'"
  by (cases e; cases e') simp

lemma to_int_Inr_iff:
  "to_int s = Inr n \<longleftrightarrow>
     s \<noteq> [] \<and> list_all is_decimal s \<and> length s \<le> int_max_str_digits \<and> n = decimal_value s"
  by (auto simp: to_int_def)

lemma to_int_Inl_iff:
  "to_int s = Inl e \<longleftrightarrow> \<not> (s \<noteq> [] \<and> list_all is_decimal s \<and> length s \<le> int_max_str_digits)"
  using py_error_ValueError [of e] by (auto simp: to_int_def)

text \<open>
  When \<^verbatim>\<open>_should_merge_texts\<close> returns, it returns true exactly when, of the lowercased
  trimmed texts, one is a substring of the other, or exactly one passes \<^verbatim>\<open>isdigit\<close>, or
  both do and their values are at most 2 apart, or the two sets of words share a word of more
  than 3 characters.
\<close>

lemma should_merge_texts_returns:
  assumes "should_merge_texts text1 text2 = Inr b"
  shows "b \<longleftrightarrow>
     (let t1 = strip (lower text1); t2 = strip (lower text2)
      in str_in t1 t2 \<or> str_in t2 t1
         \<or> isdigit t1 \<noteq> isdigit t2
         \<or> (isdigit t1 \<and> isdigit t2 \<and> \<bar>decimal_value t1 - decimal_value t2\<bar> \<le> 2)
         \<or> (\<exists>word \<in> set (split t1) \<inter> set (split t2). 3 < length word))"
  using assms
  unfolding should_merge_texts_def common_long_word_def Let_def
  by (auto simp: to_int_Inr_iff split: if_splits sum.splits)

text \<open>
  It raises exactly when neither text is a substring of the other, both pass \<^verbatim>\<open>isdigit\<close>
  and \<^verbatim>\<open>int\<close> rejects one of them.
\<close>

lemma should_merge_texts_raises_iff:
  "should_merge_texts text1 text2 = Inl e \<longleftrightarrow>
     (let t1 = strip (lower text1); t2 = strip (lower text2)
      in \<not> str_in t1 t2 \<and> \<not> str_in t2 t1 \<and> isdigit t1 \<and> isdigit t2
         \<and> (to_int t1 = Inl ValueError \<or> to_int t2 = Inl ValueError))"
  unfolding should_merge_texts_def Let_def
  by (auto split: sum.splits intro: py_error_eq)

lemma strip_replicate: "\<not> is_space c \<Longrightarrow> strip (replicate n c) = replicate n c"
proof -
  assume c: "\<not> is_space c"
  have d: "dropWhile is_space (replicate n c) = replicate n c"
    using c by simp
  show ?thesis unfolding strip_def d using c by simp
qed

lemma str_in_replicate:
  assumes "a \<noteq> b" and "0 < n"
  shows "\<not> str_in (replicate n a) (replicate n b)"
proof
  assume "str_in (replicate n a) (replicate n b)"
  then obtain p s where "replicate n b = p @ replicate n a @ s"
    unfolding str_in_iff by blast
  then have "set (replicate n a) \<subseteq> set (replicate n b)"
    by (metis Un_upper1 Un_upper2 set_append subset_trans)
  then show False using assms by auto
qed

lemma long_digits_raise:
  "should_merge_texts (replicate 4301 CHR ''1'') (replicate 4301 CHR ''2'') = Inl ValueError"
proof -
  let ?a = "replicate 4301 CHR ''1''" and ?b = "replicate 4301 CHR ''2''"
  have l: "lower ?a = ?a" "lower ?b = ?b" by (simp_all add: lower_def lower_char_def)
  have s: "strip ?a = ?a" "strip ?b = ?b" by (simp_all add: strip_replicate is_space_def)
  have n: "\<not> str_in ?a ?b" "\<not> str_in ?b ?a" by (simp_all add: str_in_replicate)
  have d: "isdigit ?a" "isdigit ?b" by (simp_all add: isdigit_def is_digit_def list_all_iff)
  have t: "to_int ?a = Inl ValueError" by (simp add: to_int_def int_max_str_digits_def)
  show ?thesis
    unfolding should_merge_texts_raises_iff Let_def l s using n d t by blast
qed

text \<open>
  C4 does not hold of the code. \<^verbatim>\<open>_should_merge_texts\<close> does not return a truth value for every
  pair of strings: on the superscript digits two and three (code points 178 and 179), which
  both pass \<^verbatim>\<open>isdigit\<close> and are not substrings of each other, the call \<^verbatim>\<open>int(t1)\<close> raises
  \<^verbatim>\<open>ValueError\<close>; so it does on two strings of 4301 decimal digits. On the superscript two
  and a word it returns true, and on the texts of the examples it returns what C4 says.
\<close>

theorem should_merge_texts_raises:
  "should_merge_texts [CHR 0xB2] [CHR 0xB3] = Inl ValueError
   \<and> should_merge_texts (replicate 4301 CHR ''1'') (replicate 4301 CHR ''2'') = Inl ValueError
   \<and> should_merge_texts [CHR 0xB2] ''abc'' = Inr True
   \<and> should_merge_texts ''44'' ''Eliminar tipo de fuente'' = Inr True
   \<and> should_merge_texts ''45'' ''46'' = Inr True
   \<and> should_merge_texts ''45'' ''50'' = Inr False
   \<and> should_merge_texts ''Crear pedido'' ''editar PEDIDO'' = Inr True
   \<and> should_merge_texts ''ver mas'' ''otro'' = Inr False"
proof -
  have 1: "should_merge_texts [CHR 0xB2] [CHR 0xB3] = Inl ValueError" by code_simp
  have 3: "should_merge_texts [CHR 0xB2] ''abc'' = Inr True" by code_simp
  have 4: "should_merge_texts ''44'' ''Eliminar tipo de fuente'' = Inr True" by code_simp
  have 5: "should_merge_texts ''45'' ''46'' = Inr True" by code_simp
  have 6: "should_merge_texts ''45'' ''50'' = Inr False" by code_simp
  have 7: "should_merge_texts ''Crear pedido'' ''editar PEDIDO'' = Inr True" by code_simp
  have 8: "should_merge_texts ''ver mas'' ''otro'' = Inr False" by code_simp
  show ?thesis by (intro conjI) (fact 1 long_digits_raise 3 4 5 6 7 8)+
qed

lemma strip_all_space: "list_all is_space (strip s) \<Longrightarrow> strip s = []"
proof (rule ccontr)
  let ?v = "dropWhile is_space (rev (dropWhile is_space s))"
  assume a: "list_all is_space (strip s)" and n: "strip s \<noteq> []"
  have v: "?v \<noteq> []" using n by (simp add: strip_def)
  then have "\<not> is_space (hd ?v)" by (metis hd_dropWhile)
  moreover have "hd ?v \<in> set (strip s)" using v by (simp add: strip_def)
  ultimately show False using a by (auto simp: list_all_iff)
qed

lemma split_strip_Nil: "split (strip s) = [] \<Longrightarrow> strip s = []"
  by (simp add: split_def split_from_Nil_iff strip_all_space)

lemma strip_lower_Nil: "strip (lower s) = [] \<longleftrightarrow> strip s = []"
  unfolding strip_lower by (simp add: lower_def)

lemma text_similarity_blank:
  assumes "strip text1 = [] \<or> strip text2 = []"
  shows "text_similarity text1 text2 = 1"
proof -
  have "strip (lower text1) = [] \<or> strip (lower text2) = []"
    using assms by (simp add: strip_lower_Nil)
  then have "str_in (strip (lower text1)) (strip (lower text2))
      \<or> str_in (strip (lower text2)) (strip (lower text1))"
    using str_in_Nil by metis
  then show ?thesis by (simp add: text_similarity_def Let_def)
qed

text \<open>
  C10. When either argument of \<^verbatim>\<open>text_similarity\<close> trims to the empty string the function
  returns 1 by the substring branch. Whenever the substring test fails, both word sets are
  non-empty, so the branch that returns 0 is never taken. A detection whose text is blank is
  a duplicate of every detection for a threshold below 1, in particular for the thresholds
  0.7 and 0.8 of the code, and the scan drops it once a detection has been accepted.
\<close>

theorem text_similarity_empty_text:
  "(strip text1 = [] \<or> strip text2 = [] \<longrightarrow> text_similarity text1 text2 = 1)
   \<and> (\<not> (str_in (strip (lower text1)) (strip (lower text2))
          \<or> str_in (strip (lower text2)) (strip (lower text1)))
        \<longrightarrow> set (split (strip (lower text1))) \<noteq> {} \<and> set (split (strip (lower text2))) \<noteq> {})
   \<and> (similarity_threshold < 1 \<and> strip (text result) = []
        \<longrightarrow> is_duplicate similarity_threshold result unique
          \<and> scan_unique similarity_threshold (result # rest) (unique # unique_results)
              = scan_unique similarity_threshold rest (unique # unique_results))
   \<and> (strip (text result) = []
        \<longrightarrow> is_duplicate (7 / 10) result unique \<and> is_duplicate (8 / 10) result unique)"
proof -
  have a: "text_similarity text1 text2 = 1" if "strip text1 = [] \<or> strip text2 = []"
    using that by (rule text_similarity_blank)
  have b: "set (split (strip (lower text1))) \<noteq> {} \<and> set (split (strip (lower text2))) \<noteq> {}"
    if n: "\<not> (str_in (strip (lower text1)) (strip (lower text2))
          \<or> str_in (strip (lower text2)) (strip (lower text1)))"
  proof -
    have "strip (lower text1) \<noteq> []" "strip (lower text2) \<noteq> []"
      using n str_in_Nil by auto
    then show ?thesis using split_strip_Nil by auto
  qed
  have c: "is_duplicate similarity_threshold result u"
    if "similarity_threshold < 1" "strip (text result) = []" for u
    using that text_similarity_blank [of "text result" "text u"]
    by (simp add: is_duplicate_def Let_def)
  have d: "scan_unique similarity_threshold (result # rest) (unique # unique_results)
              = scan_unique similarity_threshold rest (unique # unique_results)"
    if "similarity_threshold < 1" "strip (text result) = []"
    using c [OF that, of unique] by simp
  have e: "is_duplicate (7 / 10) result unique \<and> is_duplicate (8 / 10) result unique"
    if "strip (text result) = []"
    using that text_similarity_blank [of "text result" "text unique"]
    by (simp add: is_duplicate_def Let_def)
  show ?thesis using a b c d e by blast
qed

text \<open>
  The theorem on a blank text against a use case, on two unrelated texts, and on a blank
  detection scanned after an accepted one with the threshold of the pipeline.
\<close>

theorem text_similarity_empty_text_witness:
  "strip ''   '' = []
   \<and> text_similarity ''   '' ''Crear pedido'' = 1
   \<and> \<not> (str_in (strip (lower ''Crear pedido'')) (strip (lower ''Ver saldo''))
          \<or> str_in (strip (lower ''Ver saldo'')) (strip (lower ''Crear pedido'')))
   \<and> set (split (strip (lower ''Crear pedido''))) \<noteq> {}
   \<and> (7 / 10 :: real) < 1
   \<and> strip (text \<lparr>bbox = Box (0, 0) (5, 0) (5, 5) (0, 5), text = ''   '', confidence = 1 / 2,
                   original_bbox = None, merged_from = None\<rparr>) = []
   \<and> is_duplicate (7 / 10)
        \<lparr>bbox = Box (0, 0) (5, 0) (5, 5) (0, 5), text = ''   '', confidence = 1 / 2,
         original_bbox = None, merged_from = None\<rparr>
        \<lparr>bbox = Box (50, 50) (90, 50) (90, 60) (50, 60), text = ''Crear pedido'', confidence = 9 / 10,
         original_bbox = None, merged_from = None\<rparr>
   \<and> scan_unique (7 / 10)
        [\<lparr>bbox = Box (0, 0) (5, 0) (5, 5) (0, 5), text = ''   '', confidence = 1 / 2,
          original_bbox = None, merged_from = None\<rparr>]
        [\<lparr>bbox = Box (50, 50) (90, 50) (90, 60) (50, 60), text = ''Crear pedido'', confidence = 9 / 10,
          original_bbox = None, merged_from = None\<rparr>]
       = [\<lparr>bbox = Box (50, 50) (90, 50) (90, 60) (50, 60), text = ''Crear pedido'', confidence = 9 / 10,
          original_bbox = None, merged_from = None\<rparr>]"
proof -
  let ?r = "\<lparr>bbox = Box (0, 0) (5, 0) (5, 5) (0, 5), text = ''   '', confidence = 1 / 2,
             original_bbox = None, merged_from = None\<rparr>"
  let ?u = "\<lparr>bbox = Box (50, 50) (90, 50) (90, 60) (50, 60), text = ''Crear pedido'', confidence = 9 / 10,
             original_bbox = None, merged_from = None\<rparr>"
  have h1: "strip ''   '' = []" by code_simp
  have h2: "\<not> (str_in (strip (lower ''Crear pedido'')) (strip (lower ''Ver saldo''))
          \<or> str_in (strip (lower ''Ver saldo'')) (strip (lower ''Crear pedido'')))"
    by code_simp
  have h3: "(7 / 10 :: real) < 1" by simp
  have h4: "strip (text ?r) = []" using h1 by simp
  note t1 = text_similarity_empty_text [of "''   ''" "''Crear pedido''" "7 / 10" ?r ?u "[]" "[]"]
  note t2 = text_similarity_empty_text [of "''Crear pedido''" "''Ver saldo''" "7 / 10" ?r ?u "[]" "[]"]
  have c1: "text_similarity ''   '' ''Crear pedido'' = 1" using t1 h1 by blast
  have c2: "set (split (strip (lower ''Crear pedido''))) \<noteq> {}" using t2 h2 by blast
  have c3: "is_duplicate (7 / 10) ?r ?u" using t1 h3 h4 by blast
  have "scan_unique (7 / 10) [?r] [?u] = scan_unique (7 / 10) [] [?u]" using t1 h3 h4 by blast
  then have c4: "scan_unique (7 / 10) [?r] [?u] = [?u]" by simp
  show ?thesis using h1 c1 h2 c2 h3 h4 c3 c4 by blast
qed

section \<open>The duplicate eliminator\<close>

lemma scan_unique_snoc:
  "scan_unique th (xs @ [x]) acc =
     (if list_ex (is_duplicate th x) (scan_unique th xs acc) then scan_unique th xs acc
      else scan_unique th xs acc @ [x])"
  by (induction xs arbitrary: acc) auto

lemma scan_unique_subseq: "\<exists>ys. scan_unique th xs acc = acc @ ys \<and> subseq ys xs"
proof (induction xs arbitrary: acc)
  case Nil
  then show ?case by simp
next
  case (Cons x xs)
  show ?case
  proof (cases "list_ex (is_duplicate th x) acc")
    case True
    obtain ys where "scan_unique th xs acc = acc @ ys" "subseq ys xs"
      using Cons.IH [of acc] by blast
    then show ?thesis using True by auto
  next
    case False
    obtain ys where "scan_unique th xs (acc @ [x]) = (acc @ [x]) @ ys" "subseq ys xs"
      using Cons.IH [of "acc @ [x]"] by blast
    then have "scan_unique th (x # xs) acc = acc @ (x # ys) \<and> subseq (x # ys) (x # xs)"
      using False by simp
    then show ?thesis by blast
  qed
qed

lemma scan_unique_length: "length (scan_unique th xs acc) \<le> length acc + length xs"
proof -
  obtain ys where "scan_unique th xs acc = acc @ ys" "subseq ys xs"
    using scan_unique_subseq by blast
  then show ?thesis using list_emb_length [of "(=)" ys xs] by simp
qed

lemma scan_unique_sorted:
  "sorted_wrt R (acc @ xs) \<Longrightarrow> sorted_wrt R (scan_unique th xs acc)"
proof (induction xs arbitrary: acc)
  case Nil
  then show ?case by simp
next
  case (Cons x xs)
  have a: "sorted_wrt R (acc @ xs)" using Cons.prems by (auto simp: sorted_wrt_append)
  have b: "sorted_wrt R ((acc @ [x]) @ xs)" using Cons.prems by simp
  show ?case using Cons.IH [OF a] Cons.IH [OF b] by simp
qed

lemma scan_unique_keeps_acc: "set acc \<subseteq> set (scan_unique th xs acc)"
  using scan_unique_subseq [of th xs acc] by auto

lemma scan_unique_representative:
  assumes "sorted_wrt (\<lambda>a b. confidence b \<le> confidence a) (acc @ xs)" and "x \<in> set xs"
  shows "x \<in> set (scan_unique th xs acc)
    \<or> (\<exists>u \<in> set (scan_unique th xs acc). is_duplicate th x u \<and> confidence x \<le> confidence u)"
  using assms
proof (induction xs arbitrary: acc)
  case Nil
  then show ?case by simp
next
  case (Cons y ys)
  have a: "sorted_wrt (\<lambda>a b. confidence b \<le> confidence a) (acc @ ys)"
    using Cons.prems(1) by (auto simp: sorted_wrt_append)
  have b: "sorted_wrt (\<lambda>a b. confidence b \<le> confidence a) ((acc @ [y]) @ ys)"
    using Cons.prems(1) by simp
  show ?case
  proof (cases "x \<in> set ys")
    case True
    show ?thesis using Cons.IH [OF a True] Cons.IH [OF b True] by simp
  next
    case False
    then have xy: "x = y" using Cons.prems(2) by simp
    show ?thesis
    proof (cases "list_ex (is_duplicate th y) acc")
      case dup: True
      then obtain u where u: "u \<in> set acc" "is_duplicate th y u" by (auto simp: list_ex_iff)
      have "confidence y \<le> confidence u"
        using Cons.prems(1) u(1) by (auto simp: sorted_wrt_append)
      moreover have "u \<in> set (scan_unique th (y # ys) acc)"
        using u(1) scan_unique_keeps_acc by blast
      ultimately show ?thesis using u(2) xy by blast
    next
      case nodup: False
      have "y \<in> set (scan_unique th ys (acc @ [y]))"
        using scan_unique_keeps_acc [of "acc @ [y]" th ys] by simp
      then show ?thesis using nodup xy by simp
    qed
  qed
qed

lemma sort_by_confidence_descending: "confidence_descending (sort_by_confidence results)"
proof -
  have "sorted (map (\<lambda>x. - confidence x) (sort_by_confidence results))"
    by (simp add: sort_by_confidence_def)
  then show ?thesis by (simp add: confidence_descending_def sorted_map)
qed

lemma sort_by_confidence_stable:
  "filter (\<lambda>x. confidence x = k) (sort_by_confidence results) = filter (\<lambda>x. confidence x = k) results"
proof -
  have "filter (\<lambda>x. - confidence x = - k) (sort_key (\<lambda>x. - confidence x) results)
      = filter (\<lambda>x. - confidence x = - k) results"
    by (rule sort_key_stable)
  then show ?thesis by (simp add: sort_by_confidence_def)
qed

lemma remove_duplicate_cases_scan:
  "remove_duplicate_cases results th = scan_unique th (sort_by_confidence results) []"
  by (simp add: remove_duplicate_cases_def sort_by_confidence_def)

text \<open>
  C5. \<^verbatim>\<open>_remove_duplicate_cases\<close> scans the list sorted by descending confidence, a stable
  sort of the input. A detection is accepted exactly when no detection accepted before it has
  a text similarity above the threshold or an IoU above 0.5, and it is then appended to the
  accepted ones. The result is a subsequence of the sorted list, in descending order of
  confidence; every detection of the input is in the result or is a duplicate of a detection
  of the result whose confidence is not lower; the first result is a detection of highest
  confidence.
\<close>

theorem remove_duplicate_cases_scan_order:
  "remove_duplicate_cases results th = scan_unique th (sort_by_confidence results) []
   \<and> confidence_descending (sort_by_confidence results)
   \<and> mset (sort_by_confidence results) = mset results
   \<and> filter (\<lambda>x. confidence x = k) (sort_by_confidence results)
       = filter (\<lambda>x. confidence x = k) results
   \<and> scan_unique th [] [] = []
   \<and> scan_unique th (xs @ [x]) [] =
       (if \<exists>u \<in> set (scan_unique th xs []).
             text_similarity (text x) (text u) > th \<or> calculate_iou (bbox x) (bbox u) > 0.5
        then scan_unique th xs [] else scan_unique th xs [] @ [x])
   \<and> subseq (remove_duplicate_cases results th) (sort_by_confidence results)
   \<and> confidence_descending (remove_duplicate_cases results th)
   \<and> (\<forall>r \<in> set results. r \<in> set (remove_duplicate_cases results th)
         \<or> (\<exists>u \<in> set (remove_duplicate_cases results th).
               is_duplicate th r u \<and> confidence r \<le> confidence u))
   \<and> (results \<noteq> [] \<longrightarrow> remove_duplicate_cases results th \<noteq> []
         \<and> hd (remove_duplicate_cases results th) = hd (sort_by_confidence results)
         \<and> (\<forall>r \<in> set results. confidence r \<le> confidence (hd (remove_duplicate_cases results th))))"
proof -
  let ?s = "sort_by_confidence results"
  let ?out = "remove_duplicate_cases results th"
  have o: "?out = scan_unique th ?s []" by (rule remove_duplicate_cases_scan)
  have d: "confidence_descending ?s" by (rule sort_by_confidence_descending)
  have m: "mset ?s = mset results" by (simp add: sort_by_confidence_def)
  have st: "filter (\<lambda>x. confidence x = k) ?s = filter (\<lambda>x. confidence x = k) results"
    by (rule sort_by_confidence_stable)
  have sn: "scan_unique th (xs @ [x]) [] =
       (if \<exists>u \<in> set (scan_unique th xs []).
             text_similarity (text x) (text u) > th \<or> calculate_iou (bbox x) (bbox u) > 0.5
        then scan_unique th xs [] else scan_unique th xs [] @ [x])"
    by (simp add: scan_unique_snoc list_ex_iff is_duplicate_def Let_def)
  have sub: "subseq ?out ?s" using scan_unique_subseq [of th ?s "[]"] o by auto
  have od: "confidence_descending ?out"
    using d scan_unique_sorted [of _ "[]" ?s th] o by (simp add: confidence_descending_def)
  have set_s: "set ?s = set results" by (simp add: sort_by_confidence_def)
  have rep: "r \<in> set ?out \<or> (\<exists>u \<in> set ?out. is_duplicate th r u \<and> confidence r \<le> confidence u)"
    if "r \<in> set results" for r
  proof -
    have "sorted_wrt (\<lambda>a b. confidence b \<le> confidence a) ([] @ ?s)"
      using d by (simp add: confidence_descending_def)
    moreover have "r \<in> set ?s" using that set_s by simp
    ultimately show ?thesis using scan_unique_representative [of "[]" ?s r th] o by simp
  qed
  have top: "?out \<noteq> [] \<and> hd ?out = hd ?s \<and> (\<forall>r \<in> set results. confidence r \<le> confidence (hd ?out))"
    if ne: "results \<noteq> []"
  proof -
    have sne: "?s \<noteq> []" using ne set_s by (metis set_empty)
    then obtain y ys where s: "?s = y # ys" by (cases ?s) auto
    have "?out = scan_unique th ys [y]" using o s by simp
    then obtain zs where z: "?out = [y] @ zs" using scan_unique_subseq [of th ys "[y]"] by auto
    have "confidence r \<le> confidence y" if "r \<in> set results" for r
    proof -
      have "r \<in> set (y # ys)" using that set_s s by simp
      then show ?thesis using d s by (auto simp: confidence_descending_def)
    qed
    then show ?thesis using z s by simp
  qed
  have e: "scan_unique th [] [] = []" by simp
  have rep': "\<forall>r \<in> set results. r \<in> set ?out
      \<or> (\<exists>u \<in> set ?out. is_duplicate th r u \<and> confidence r \<le> confidence u)"
    using rep by blast
  have top': "results \<noteq> [] \<longrightarrow> ?out \<noteq> [] \<and> hd ?out = hd ?s
      \<and> (\<forall>r \<in> set results. confidence r \<le> confidence (hd ?out))"
    using top by blast
  show ?thesis by (intro conjI) (fact o d m st e sn sub od rep' top')+
qed

text \<open>
  The theorem on three detections: a use case read twice, far apart, with confidences 0.6 and
  0.9, and another use case with confidence 0.9. The second reading is kept, the first one
  is its duplicate by text, and the tie at 0.9 keeps the order of the input.
\<close>

theorem remove_duplicate_cases_scan_order_witness:
  "sort_by_confidence
      [\<lparr>bbox = Box (0, 0) (100, 0) (100, 20) (0, 20), text = ''Crear pedido'', confidence = 6 / 10,
        original_bbox = None, merged_from = None\<rparr>,
       \<lparr>bbox = Box (300, 300) (400, 300) (400, 320) (300, 320), text = ''crear pedido'',
        confidence = 9 / 10, original_bbox = None, merged_from = None\<rparr>,
       \<lparr>bbox = Box (600, 600) (700, 600) (700, 620) (600, 620), text = ''Ver saldo'',
        confidence = 9 / 10, original_bbox = None, merged_from = None\<rparr>]
     = [\<lparr>bbox = Box (300, 300) (400, 300) (400, 320) (300, 320), text = ''crear pedido'',
        confidence = 9 / 10, original_bbox = None, merged_from = None\<rparr>,
       \<lparr>bbox = Box (600, 600) (700, 600) (700, 620) (600, 620), text = ''Ver saldo'',
        confidence = 9 / 10, original_bbox = None, merged_from = None\<rparr>,
       \<lparr>bbox = Box (0, 0) (100, 0) (100, 20) (0, 20), text = ''Crear pedido'', confidence = 6 / 10,
        original_bbox = None, merged_from = None\<rparr>]
   \<and> remove_duplicate_cases
      [\<lparr>bbox = Box (0, 0) (100, 0) (100, 20) (0, 20), text = ''Crear pedido'', confidence = 6 / 10,
        original_bbox = None, merged_from = None\<rparr>,
       \<lparr>bbox = Box (300, 300) (400, 300) (400, 320) (300, 320), text = ''crear pedido'',
        confidence = 9 / 10, original_bbox = None, merged_from = None\<rparr>,
       \<lparr>bbox = Box (600, 600) (700, 600) (700, 620) (600, 620), text = ''Ver saldo'',
        confidence = 9 / 10, original_bbox = None, merged_from = None\<rparr>] (7 / 10)
     = [\<lparr>bbox = Box (300, 300) (400, 300) (400, 320) (300, 320), text = ''crear pedido'',
        confidence = 9 / 10, original_bbox = None, merged_from = None\<rparr>,
       \<lparr>bbox = Box (600, 600) (700, 600) (700, 620) (600, 620), text = ''Ver saldo'',
        confidence = 9 / 10, original_bbox = None, merged_from = None\<rparr>]
   \<and> confidence_descending (remove_duplicate_cases
      [\<lparr>bbox = Box (0, 0) (100, 0) (100, 20) (0, 20), text = ''Crear pedido'', confidence = 6 / 10,
        original_bbox = None, merged_from = None\<rparr>,
       \<lparr>bbox = Box (300, 300) (400, 300) (400, 320) (300, 320), text = ''crear pedido'',
        confidence = 9 / 10, original_bbox = None, merged_from = None\<rparr>,
       \<lparr>bbox = Box (600, 600) (700, 600) (700, 620) (600, 620), text = ''Ver saldo'',
        confidence = 9 / 10, original_bbox = None, merged_from = None\<rparr>] (7 / 10))
   \<and> is_duplicate (7 / 10)
       \<lparr>bbox = Box (0, 0) (100, 0) (100, 20) (0, 20), text = ''Crear pedido'', confidence = 6 / 10,
        original_bbox = None, merged_from = None\<rparr>
       \<lparr>bbox = Box (300, 300) (400, 300) (400, 320) (300, 320), text = ''crear pedido'',
        confidence = 9 / 10, original_bbox = None, merged_from = None\<rparr>"
proof -
  let ?A = "\<lparr>bbox = Box (0, 0) (100, 0) (100, 20) (0, 20), text = ''Crear pedido'',
             confidence = 6 / 10, original_bbox = None, merged_from = None\<rparr>"
  let ?B = "\<lparr>bbox = Box (300, 300) (400, 300) (400, 320) (300, 320), text = ''crear pedido'',
             confidence = 9 / 10, original_bbox = None, merged_from = None\<rparr>"
  let ?C = "\<lparr>bbox = Box (600, 600) (700, 600) (700, 620) (600, 620), text = ''Ver saldo'',
             confidence = 9 / 10, original_bbox = None, merged_from = None\<rparr>"
  note t = remove_duplicate_cases_scan_order [of "[?A, ?B, ?C]" "7 / 10" "9 / 10" "[?B, ?C]" ?A]
  have s: "sort_by_confidence [?A, ?B, ?C] = [?B, ?C, ?A]"
    by (simp add: sort_by_confidence_def)
  have ab: "text_similarity (text ?A) (text ?B) = 1" by code_simp
  have cb: "\<not> list_ex (is_duplicate (7 / 10) ?C) [?B]" by code_simp
  have dup: "is_duplicate (7 / 10) ?A ?B" using ab by (simp add: is_duplicate_def)
  have "remove_duplicate_cases [?A, ?B, ?C] (7 / 10) = scan_unique (7 / 10) [?B, ?C, ?A] []"
    using t s by simp
  then have o: "remove_duplicate_cases [?A, ?B, ?C] (7 / 10) = [?B, ?C]"
    using cb dup by simp
  have d: "confidence_descending (remove_duplicate_cases [?A, ?B, ?C] (7 / 10))"
    using t by blast
  show ?thesis by (intro conjI) (fact s o d dup)+
qed

section \<open>The groups of the fragment merger\<close>

lemma inner_loop_closed:
  assumes "distinct js"
  shows "inner_loop th rs i js (g, used) =
     (g @ map ((!) rs) (filter (\<lambda>j. j \<notin> used \<and> should_merge th (rs ! i) (rs ! j)) js),
      used \<union> set (filter (\<lambda>j. j \<notin> used \<and> should_merge th (rs ! i) (rs ! j)) js))"
  using assms
proof (induction js arbitrary: g used)
  case Nil
  then show ?case by simp
next
  case (Cons j js)
  have d: "distinct js" and n: "j \<notin> set js" using Cons.prems by auto
  show ?case
  proof (cases "j \<notin> used \<and> should_merge th (rs ! i) (rs ! j)")
    case True
    have f: "filter (\<lambda>k. k \<notin> insert j used \<and> should_merge th (rs ! i) (rs ! k)) js
        = filter (\<lambda>k. k \<notin> used \<and> should_merge th (rs ! i) (rs ! k)) js"
      using n by (intro filter_cong) auto
    note ih = Cons.IH [OF d, of "g @ [rs ! j]" "insert j used", unfolded f]
    show ?thesis using True ih by simp
  next
    case False
    then show ?thesis using Cons.IH [OF d, of g used] by auto
  qed
qed

lemma outer_loop_step:
  assumes "i \<notin> used"
  shows "\<exists>js. outer_loop th rs (i # rest) (groups, used) =
           outer_loop th rs rest (groups @ [rs ! i # map ((!) rs) js], insert i used \<union> set js)
         \<and> distinct js \<and> set js \<subseteq> {i + 1..<length rs} \<and> set js \<inter> insert i used = {}"
proof -
  let ?js = "filter (\<lambda>j. j \<notin> insert i used \<and> should_merge th (rs ! i) (rs ! j)) [i + 1..<length rs]"
  have "inner_loop th rs i [i + 1..<length rs] ([rs ! i], insert i used)
      = ([rs ! i] @ map ((!) rs) ?js, insert i used \<union> set ?js)"
    by (rule inner_loop_closed) simp
  then have "outer_loop th rs (i # rest) (groups, used) =
      outer_loop th rs rest (groups @ [rs ! i # map ((!) rs) ?js], insert i used \<union> set ?js)"
    using assms by simp
  moreover have "distinct ?js" by simp
  moreover have "set ?js \<subseteq> {i + 1..<length rs}" by auto
  moreover have "set ?js \<inter> insert i used = {}" by auto
  ultimately show ?thesis by blast
qed

lemma accounted_step:
  assumes a: "accounted rs groups used" and i: "i \<notin> used"
    and d: "distinct js" and x: "set js \<inter> insert i used = {}"
  shows "accounted rs (groups @ [rs ! i # map ((!) rs) js]) (insert i used \<union> set js)"
proof -
  have fin: "finite used" using a by (simp add: accounted_def)
  have m: "mset (concat groups) = image_mset ((!) rs) (mset_set used)"
    using a by (simp add: accounted_def)
  have "mset_set (insert i used \<union> set js) = mset_set (insert i used) + mset_set (set js)"
    using fin x by (intro mset_set_Union) auto
  also have "\<dots> = add_mset i (mset_set used) + mset js"
    using fin i d by (simp add: mset_set_set)
  finally have u: "mset_set (insert i used \<union> set js) = add_mset i (mset_set used) + mset js" .
  have "mset (concat (groups @ [rs ! i # map ((!) rs) js]))
      = image_mset ((!) rs) (mset_set (insert i used \<union> set js))"
    unfolding u using m by simp
  then show ?thesis using a fin by (simp add: accounted_def)
qed

lemma outer_loop_accounted:
  assumes "accounted rs groups used" and "outer_loop th rs idxs (groups, used) = (groups', used')"
  shows "accounted rs groups' used' \<and> used \<union> set idxs \<subseteq> used'
    \<and> used' \<subseteq> used \<union> set idxs \<union> {0..<length rs}
    \<and> length groups' \<le> length groups + length idxs"
  using assms
proof (induction idxs arbitrary: groups used)
  case Nil
  then show ?case by simp
next
  case (Cons i rest)
  show ?case
  proof (cases "i \<in> used")
    case True
    then have "outer_loop th rs rest (groups, used) = (groups', used')"
      using Cons.prems(2) by simp
    then show ?thesis using Cons.IH [OF Cons.prems(1)] True by auto
  next
    case False
    then obtain js where s: "outer_loop th rs (i # rest) (groups, used) =
           outer_loop th rs rest (groups @ [rs ! i # map ((!) rs) js], insert i used \<union> set js)"
      and d: "distinct js" and r: "set js \<subseteq> {i + 1..<length rs}"
      and x: "set js \<inter> insert i used = {}"
      using outer_loop_step [of i used th rs rest groups] by blast
    have a: "accounted rs (groups @ [rs ! i # map ((!) rs) js]) (insert i used \<union> set js)"
      using accounted_step [OF Cons.prems(1) False d x] .
    have o: "outer_loop th rs rest (groups @ [rs ! i # map ((!) rs) js], insert i used \<union> set js)
        = (groups', used')"
      using s Cons.prems(2) by simp
    have "accounted rs groups' used' \<and> (insert i used \<union> set js) \<union> set rest \<subseteq> used'
      \<and> used' \<subseteq> (insert i used \<union> set js) \<union> set rest \<union> {0..<length rs}
      \<and> length groups' \<le> length (groups @ [rs ! i # map ((!) rs) js]) + length rest"
      using Cons.IH [OF a o] .
    then show ?thesis using r by auto
  qed
qed

lemma build_groups_accounted:
  "accounted rs (build_groups th rs) {0..<length rs}
   \<and> snd (outer_loop th rs [0..<length rs] ([], {})) = {0..<length rs}
   \<and> length (build_groups th rs) \<le> length rs"
proof -
  obtain groups' used' where o: "outer_loop th rs [0..<length rs] ([], {}) = (groups', used')"
    by (cases "outer_loop th rs [0..<length rs] ([], {})") auto
  have a: "accounted rs [] {}" by (simp add: accounted_def)
  have "accounted rs groups' used' \<and> {} \<union> set [0..<length rs] \<subseteq> used'
    \<and> used' \<subseteq> {} \<union> set [0..<length rs] \<union> {0..<length rs}
    \<and> length groups' \<le> length ([] :: detection list list) + length [0..<length rs]"
    using outer_loop_accounted [OF a o] .
  then have "accounted rs groups' used'" "used' = {0..<length rs}" "length groups' \<le> length rs"
    by auto
  then show ?thesis using o by (simp add: build_groups_def)
qed

lemma build_groups_partition: "mset (concat (build_groups th rs)) = mset rs"
proof -
  have "mset (concat (build_groups th rs)) = image_mset ((!) rs) (mset_set {0..<length rs})"
    using build_groups_accounted [of rs th] by (simp add: accounted_def)
  also have "\<dots> = mset (map ((!) rs) [0..<length rs])" by simp
  also have "\<dots> = mset rs" by (simp add: map_nth)
  finally show ?thesis .
qed

lemma build_groups_nonempty: "[] \<notin> set (build_groups th rs)"
  using build_groups_accounted [of rs th] by (simp add: accounted_def)

lemma build_groups_lengths: "sum_list (map length (build_groups th rs)) = length rs"
proof -
  have "sum_list (map length (build_groups th rs)) = length (concat (build_groups th rs))"
    by (simp add: length_concat)
  also have "\<dots> = size (mset (concat (build_groups th rs)))" by simp
  also have "\<dots> = length rs" unfolding build_groups_partition by simp
  finally show ?thesis .
qed

lemma merged_count_merge_group: "merged_count (merge_group grp) = length grp"
  by (simp add: merged_count_def merge_group_def Let_def)

lemma merge_groups_count:
  assumes "\<forall>g \<in> set groups. \<forall>r \<in> set g. merged_from r = None"
  shows "sum_list (map merged_count (merge_groups groups)) = sum_list (map length groups)"
  using assms
proof (induction groups)
  case Nil
  then show ?case by (simp add: merge_groups_def)
next
  case (Cons g groups)
  have t: "sum_list (map merged_count (merge_groups groups)) = sum_list (map length groups)"
    using Cons by simp
  have h: "(if length g = 1 then merged_count (g ! 0) else merged_count (merge_group g)) = length g"
  proof (cases "length g = 1")
    case True
    then obtain r where g: "g = [r]" by (cases g) auto
    then have "merged_from r = None" using Cons.prems by simp
    then show ?thesis using g by (simp add: merged_count_def)
  next
    case False
    then show ?thesis by (simp add: merged_count_merge_group)
  qed
  have "sum_list (map merged_count (merge_groups (g # groups)))
      = (if length g = 1 then merged_count (g ! 0) else merged_count (merge_group g))
        + sum_list (map merged_count (merge_groups groups))"
    by (simp add: merge_groups_def)
  then show ?case using t h by simp
qed

lemma merge_similar_boxes_count:
  assumes "\<forall>r \<in> set results. merged_from r = None"
  shows "sum_list (map merged_count (merge_similar_boxes results th)) = length results"
proof (cases "results = []")
  case True
  then show ?thesis by (simp add: merge_similar_boxes_def)
next
  case False
  let ?s = "sort_reading_order results"
  have s: "mset ?s = mset results" by (simp add: sort_reading_order_def)
  have "set (concat (build_groups th ?s)) = set results"
    using build_groups_partition [of th ?s] s by (metis set_mset_mset)
  then have "\<forall>g \<in> set (build_groups th ?s). \<forall>r \<in> set g. merged_from r = None"
    using assms by auto
  then have "sum_list (map merged_count (merge_groups (build_groups th ?s)))
      = sum_list (map length (build_groups th ?s))"
    by (rule merge_groups_count)
  also have "\<dots> = length ?s" by (rule build_groups_lengths)
  also have "\<dots> = length results" by (simp add: sort_reading_order_def)
  finally show ?thesis using False by (simp add: merge_similar_boxes_def)
qed

lemma process_results_unmerged:
  "r \<in> set (process_results width height raw ct) \<Longrightarrow> merged_from r = None"
  by (auto simp: process_results_def)

lemma merge_similar_boxes_length: "length (merge_similar_boxes results th) \<le> length results"
proof (cases "results = []")
  case True
  then show ?thesis by (simp add: merge_similar_boxes_def)
next
  case False
  have "length (build_groups th (sort_reading_order results)) \<le> length (sort_reading_order results)"
    using build_groups_accounted by blast
  then show ?thesis using False
    by (simp add: merge_similar_boxes_def merge_groups_def sort_reading_order_def)
qed

text \<open>
  C9. The groups that \<^verbatim>\<open>_merge_similar_boxes\<close> builds hold every result of the sorted list
  exactly once: their concatenation is a permutation of the list, the loop ends with every
  index in \<^verbatim>\<open>used_ids\<close>, no group is empty and the group sizes add up to the length of the
  list. When no input carries the key \<^verbatim>\<open>merged_from\<close>, as is the case for the results that
  \<^verbatim>\<open>run_ocr\<close> passes in, the values of \<^verbatim>\<open>merged_from\<close> over the output, with 1 for the
  results that were not merged, add up to the length of the input.
\<close>

theorem merge_groups_partition:
  "mset (concat (build_groups th rs)) = mset rs
   \<and> snd (outer_loop th rs [0..<length rs] ([], {})) = {0..<length rs}
   \<and> [] \<notin> set (build_groups th rs)
   \<and> sum_list (map length (build_groups th rs)) = length rs
   \<and> ((\<forall>r \<in> set results. merged_from r = None)
        \<longrightarrow> sum_list (map merged_count (merge_similar_boxes results th)) = length results)
   \<and> sum_list (map merged_count (merge_similar_boxes (process_results width height raw ct) th))
       = length (process_results width height raw ct)"
proof -
  have a: "snd (outer_loop th rs [0..<length rs] ([], {})) = {0..<length rs}"
    using build_groups_accounted [of rs th] by blast
  have b: "(\<forall>r \<in> set results. merged_from r = None)
        \<longrightarrow> sum_list (map merged_count (merge_similar_boxes results th)) = length results"
    using merge_similar_boxes_count by blast
  have c: "sum_list (map merged_count (merge_similar_boxes (process_results width height raw ct) th))
       = length (process_results width height raw ct)"
    using merge_similar_boxes_count process_results_unmerged by blast
  show ?thesis
    by (intro conjI)
      (fact build_groups_partition a build_groups_nonempty build_groups_lengths b c)+
qed

text \<open>
  The theorem on three results: a number and its description on one row, which are merged,
  and a use case further down.
\<close>

theorem merge_groups_partition_witness:
  "list_all (\<lambda>r. merged_from r = None)
      [\<lparr>bbox = Box (60, 100) (300, 100) (300, 120) (60, 120), text = ''Eliminar tipo de fuente'',
        confidence = 8 / 10, original_bbox = None, merged_from = None\<rparr>,
       \<lparr>bbox = Box (10, 100) (40, 100) (40, 120) (10, 120), text = ''44'',
        confidence = 9 / 10, original_bbox = None, merged_from = None\<rparr>,
       \<lparr>bbox = Box (10, 300) (90, 300) (90, 320) (10, 320), text = ''Ver saldo'',
        confidence = 7 / 10, original_bbox = None, merged_from = None\<rparr>]
   \<and> map merged_count (merge_similar_boxes
      [\<lparr>bbox = Box (60, 100) (300, 100) (300, 120) (60, 120), text = ''Eliminar tipo de fuente'',
        confidence = 8 / 10, original_bbox = None, merged_from = None\<rparr>,
       \<lparr>bbox = Box (10, 100) (40, 100) (40, 120) (10, 120), text = ''44'',
        confidence = 9 / 10, original_bbox = None, merged_from = None\<rparr>,
       \<lparr>bbox = Box (10, 300) (90, 300) (90, 320) (10, 320), text = ''Ver saldo'',
        confidence = 7 / 10, original_bbox = None, merged_from = None\<rparr>] (2 / 10)) = [2, 1]
   \<and> sum_list (map merged_count (merge_similar_boxes
      [\<lparr>bbox = Box (60, 100) (300, 100) (300, 120) (60, 120), text = ''Eliminar tipo de fuente'',
        confidence = 8 / 10, original_bbox = None, merged_from = None\<rparr>,
       \<lparr>bbox = Box (10, 100) (40, 100) (40, 120) (10, 120), text = ''44'',
        confidence = 9 / 10, original_bbox = None, merged_from = None\<rparr>,
       \<lparr>bbox = Box (10, 300) (90, 300) (90, 320) (10, 320), text = ''Ver saldo'',
        confidence = 7 / 10, original_bbox = None, merged_from = None\<rparr>] (2 / 10))) = 3"
proof -
  let ?rs = "[\<lparr>bbox = Box (60, 100) (300, 100) (300, 120) (60, 120), text = ''Eliminar tipo de fuente'',
        confidence = 8 / 10, original_bbox = None, merged_from = None\<rparr>,
       \<lparr>bbox = Box (10, 100) (40, 100) (40, 120) (10, 120), text = ''44'',
        confidence = 9 / 10, original_bbox = None, merged_from = None\<rparr>,
       \<lparr>bbox = Box (10, 300) (90, 300) (90, 320) (10, 320), text = ''Ver saldo'',
        confidence = 7 / 10, original_bbox = None, merged_from = None\<rparr>]"
  have h: "list_all (\<lambda>r. merged_from r = None) ?rs" by simp
  have v: "map merged_count (merge_similar_boxes ?rs (2 / 10)) = [2, 1]" by code_simp
  have h': "\<forall>r \<in> set ?rs. merged_from r = None" using h unfolding list_all_iff .
  have "sum_list (map merged_count (merge_similar_boxes ?rs (2 / 10))) = length ?rs"
    using merge_groups_partition [of "2 / 10" ?rs ?rs 0 0 "[]" 0] h' by blast
  then have s: "sum_list (map merged_count (merge_similar_boxes ?rs (2 / 10))) = 3" by simp
  show ?thesis by (intro conjI) (fact h v s)+
qed

lemma filter_actors_length: "length (filter_actors blacklist results) \<le> length results"
  by (simp add: filter_actors_def)

lemma process_results_length: "length (process_results width height raw ct) \<le> length raw"
  by (simp add: process_results_def)

lemma remove_duplicate_cases_length: "length (remove_duplicate_cases results th) \<le> length results"
  using scan_unique_length [of th "sort_by_confidence results" "[]"]
  by (simp add: remove_duplicate_cases_def sort_by_confidence_def)

text \<open>
  C8. No stage returns a longer list than it receives, so along \<^verbatim>\<open>run_ocr\<close> the lengths of
  the raw input, the processed results, the merged results, the unique results and the
  output never grow.
\<close>

theorem stages_never_grow:
  "length (process_results width height raw ct) \<le> length raw
   \<and> length (merge_similar_boxes results iou_threshold) \<le> length results
   \<and> length (remove_duplicate_cases results similarity_threshold) \<le> length results
   \<and> length (filter_actors blacklist results) \<le> length results
   \<and> (let processed_results = process_results width height raw ct;
           merged_results = merge_similar_boxes processed_results 0.2;
           unique_results = remove_duplicate_cases merged_results 0.7
       in length (run_ocr width height blacklist raw ct) \<le> length unique_results
          \<and> length unique_results \<le> length merged_results
          \<and> length merged_results \<le> length processed_results
          \<and> length processed_results \<le> length raw)"
  unfolding Let_def run_ocr_def
  by (intro conjI)
    (fact process_results_length merge_similar_boxes_length remove_duplicate_cases_length
       filter_actors_length)+

text \<open>
  The theorem on a run that shrinks at every stage: six raw detections, one of them below the
  confidence threshold, a number and its description that are merged, a use case read twice,
  and an actor of the blacklist.
\<close>

theorem stages_never_grow_witness:
  "length (process_results 1000 1000
      [(Box (10, 100) (40, 100) (40, 120) (10, 120), ''44'', 9 / 10),
       (Box (60, 100) (300, 100) (300, 120) (60, 120), ''Eliminar tipo de fuente'', 8 / 10),
       (Box (400, 400) (450, 400) (450, 420) (400, 420), ''ruido'', 1 / 10),
       (Box (500, 500) (600, 500) (600, 520) (500, 520), ''Crear pedido'', 6 / 10),
       (Box (500, 700) (600, 700) (600, 720) (500, 720), ''crear pedido'', 7 / 10),
       (Box (800, 100) (860, 100) (860, 120) (800, 120), ''Cliente'', 95 / 100)] (3 / 10)) = 5
   \<and> length (merge_similar_boxes (process_results 1000 1000
      [(Box (10, 100) (40, 100) (40, 120) (10, 120), ''44'', 9 / 10),
       (Box (60, 100) (300, 100) (300, 120) (60, 120), ''Eliminar tipo de fuente'', 8 / 10),
       (Box (400, 400) (450, 400) (450, 420) (400, 420), ''ruido'', 1 / 10),
       (Box (500, 500) (600, 500) (600, 520) (500, 520), ''Crear pedido'', 6 / 10),
       (Box (500, 700) (600, 700) (600, 720) (500, 720), ''crear pedido'', 7 / 10),
       (Box (800, 100) (860, 100) (860, 120) (800, 120), ''Cliente'', 95 / 100)] (3 / 10)) (2 / 10)) = 4
   \<and> length (remove_duplicate_cases (merge_similar_boxes (process_results 1000 1000
      [(Box (10, 100) (40, 100) (40, 120) (10, 120), ''44'', 9 / 10),
       (Box (60, 100) (300, 100) (300, 120) (60, 120), ''Eliminar tipo de fuente'', 8 / 10),
       (Box (400, 400) (450, 400) (450, 420) (400, 420), ''ruido'', 1 / 10),
       (Box (500, 500) (600, 500) (600, 520) (500, 520), ''Crear pedido'', 6 / 10),
       (Box (500, 700) (600, 700) (600, 720) (500, 720), ''crear pedido'', 7 / 10),
       (Box (800, 100) (860, 100) (860, 120) (800, 120), ''Cliente'', 95 / 100)] (3 / 10)) (2 / 10))
      (7 / 10)) = 3
   \<and> map text (run_ocr 1000 1000 (init_blacklist [''Cliente''])
      [(Box (10, 100) (40, 100) (40, 120) (10, 120), ''44'', 9 / 10),
       (Box (60, 100) (300, 100) (300, 120) (60, 120), ''Eliminar tipo de fuente'', 8 / 10),
       (Box (400, 400) (450, 400) (450, 420) (400, 420), ''ruido'', 1 / 10),
       (Box (500, 500) (600, 500) (600, 520) (500, 520), ''Crear pedido'', 6 / 10),
       (Box (500, 700) (600, 700) (600, 720) (500, 720), ''crear pedido'', 7 / 10),
       (Box (800, 100) (860, 100) (860, 120) (800, 120), ''Cliente'', 95 / 100)] (3 / 10))
      = [''44 Eliminar tipo de fuente'', ''crear pedido'']
   \<and> length (run_ocr 1000 1000 (init_blacklist [''Cliente''])
      [(Box (10, 100) (40, 100) (40, 120) (10, 120), ''44'', 9 / 10),
       (Box (60, 100) (300, 100) (300, 120) (60, 120), ''Eliminar tipo de fuente'', 8 / 10),
       (Box (400, 400) (450, 400) (450, 420) (400, 420), ''ruido'', 1 / 10),
       (Box (500, 500) (600, 500) (600, 520) (500, 520), ''Crear pedido'', 6 / 10),
       (Box (500, 700) (600, 700) (600, 720) (500, 720), ''crear pedido'', 7 / 10),
       (Box (800, 100) (860, 100) (860, 120) (800, 120), ''Cliente'', 95 / 100)] (3 / 10))
      \<le> length
      [(Box (10, 100) (40, 100) (40, 120) (10, 120), ''44'', 9 / 10 :: real),
       (Box (60, 100) (300, 100) (300, 120) (60, 120), ''Eliminar tipo de fuente'', 8 / 10),
       (Box (400, 400) (450, 400) (450, 420) (400, 420), ''ruido'', 1 / 10),
       (Box (500, 500) (600, 500) (600, 520) (500, 520), ''Crear pedido'', 6 / 10),
       (Box (500, 700) (600, 700) (600, 720) (500, 720), ''crear pedido'', 7 / 10),
       (Box (800, 100) (860, 100) (860, 120) (800, 120), ''Cliente'', 95 / 100)]"
proof -
  let ?raw = "[(Box (10, 100) (40, 100) (40, 120) (10, 120), ''44'', 9 / 10 :: real),
       (Box (60, 100) (300, 100) (300, 120) (60, 120), ''Eliminar tipo de fuente'', 8 / 10),
       (Box (400, 400) (450, 400) (450, 420) (400, 420), ''ruido'', 1 / 10),
       (Box (500, 500) (600, 500) (600, 520) (500, 520), ''Crear pedido'', 6 / 10),
       (Box (500, 700) (600, 700) (600, 720) (500, 720), ''crear pedido'', 7 / 10),
       (Box (800, 100) (860, 100) (860, 120) (800, 120), ''Cliente'', 95 / 100)]"
  let ?bl = "init_blacklist [''Cliente'']"
  have p: "length (process_results 1000 1000 ?raw (3 / 10)) = 5" by code_simp
  have m: "length (merge_similar_boxes (process_results 1000 1000 ?raw (3 / 10)) (2 / 10)) = 4"
    by code_simp
  have u: "length (remove_duplicate_cases
      (merge_similar_boxes (process_results 1000 1000 ?raw (3 / 10)) (2 / 10)) (7 / 10)) = 3"
    by code_simp
  have o: "map text (run_ocr 1000 1000 ?bl ?raw (3 / 10))
      = [''44 Eliminar tipo de fuente'', ''crear pedido'']"
    by code_simp
  have l: "length (run_ocr 1000 1000 ?bl ?raw (3 / 10)) \<le> length ?raw"
    using stages_never_grow [of 1000 1000 ?raw "3 / 10" "[]" 0 0 ?bl] unfolding Let_def
    by linarith
  show ?thesis by (intro conjI) (fact p m u o l)+
qed

section \<open>The merged result of a group\<close>

lemma min_of_le: "m \<in> set xs \<Longrightarrow> min_of xs \<le> m"
  by (simp add: min_of_def)

lemma max_of_ge: "m \<in> set xs \<Longrightarrow> m \<le> max_of xs"
  by (simp add: max_of_def)

lemma min_of_greatest: "xs \<noteq> [] \<Longrightarrow> (\<forall>m \<in> set xs. l \<le> m) \<Longrightarrow> l \<le> min_of xs"
  by (simp add: min_of_def)

lemma max_of_least: "xs \<noteq> [] \<Longrightarrow> (\<forall>m \<in> set xs. m \<le> r) \<Longrightarrow> max_of xs \<le> r"
  by (simp add: max_of_def)

lemma x_min_le_x_max: "x_min r \<le> x_max r"
  by (simp add: x_min_def x_max_def min_of_le_max_of_x)

lemma y_min_le_y_max: "y_min r \<le> y_max r"
  by (simp add: y_min_def y_max_def min_of_le_max_of_y)

lemma group_envelope_ordered:
  assumes "grp \<noteq> []"
  shows "min_of (map x_min grp) \<le> max_of (map x_max grp)"
    and "min_of (map y_min grp) \<le> max_of (map y_max grp)"
proof -
  obtain m where m: "m \<in> set grp" using assms by (cases grp) auto
  have "min_of (map x_min grp) \<le> x_min m" using m by (intro min_of_le) simp
  moreover have "x_max m \<le> max_of (map x_max grp)" using m by (intro max_of_ge) simp
  ultimately show "min_of (map x_min grp) \<le> max_of (map x_max grp)"
    using x_min_le_x_max [of m] by linarith
  have "min_of (map y_min grp) \<le> y_min m" using m by (intro min_of_le) simp
  moreover have "y_max m \<le> max_of (map y_max grp)" using m by (intro max_of_ge) simp
  ultimately show "min_of (map y_min grp) \<le> max_of (map y_max grp)"
    using y_min_le_y_max [of m] by linarith
qed

lemma merge_group_bbox:
  "bbox (merge_group grp) =
     Box (min_of (map x_min grp), min_of (map y_min grp))
         (max_of (map x_max grp), min_of (map y_min grp))
         (max_of (map x_max grp), max_of (map y_max grp))
         (min_of (map x_min grp), max_of (map y_max grp))"
  by (simp add: merge_group_def Let_def)

lemma merge_group_envelope:
  assumes "grp \<noteq> []"
  shows "x_min (merge_group grp) = min_of (map x_min grp)
    \<and> y_min (merge_group grp) = min_of (map y_min grp)
    \<and> x_max (merge_group grp) = max_of (map x_max grp)
    \<and> y_max (merge_group grp) = max_of (map y_max grp)"
proof -
  note o = group_envelope_ordered [OF assms]
  have "min_of [a, b, b, a] = a \<and> max_of [a, b, b, a] = b" if "a \<le> b" for a b :: real
    using that by (simp add: min_of_def max_of_def)
  then show ?thesis
    using o unfolding x_min_def y_min_def x_max_def y_max_def merge_group_bbox
    by (simp add: x_coords_def y_coords_def min_of_def max_of_def)
qed

lemma merge_group_in_output:
  assumes "g \<in> set (build_groups th (sort_reading_order results))" and "1 < length g"
  shows "merge_group g \<in> set (merge_similar_boxes results th)"
proof -
  have "results \<noteq> []"
  proof
    assume "results = []"
    then have "sort_reading_order results = []" by (simp add: sort_reading_order_def)
    then have "build_groups th (sort_reading_order results) = []"
      by (simp add: build_groups_def)
    then show False using assms(1) by simp
  qed
  moreover have "merge_group g \<in> set (merge_groups (build_groups th (sort_reading_order results)))"
    using assms unfolding merge_groups_def by force
  ultimately show ?thesis by (simp add: merge_similar_boxes_def)
qed

text \<open>
  C3. For a group of more than one result, the merged result has as text the texts of the
  members joined by single spaces in the order of a stable sort by \<^verbatim>\<open>x_min\<close>, as confidence
  the mean of the confidences, as box the rectangle \<open>(L, T), (R, T), (R, B), (L, B)\<close> that
  covers the envelope of every member and lies inside every rectangle that does, and as
  \<^verbatim>\<open>merged_from\<close> the size of the group; it is a result of \<^verbatim>\<open>_merge_similar_boxes\<close>. The
  merger turns the results \<^verbatim>\<open>44\<close> at x = 10 and \<^verbatim>\<open>Eliminar tipo de fuente\<close> at x = 60 on the
  same row into the one result \<^verbatim>\<open>44 Eliminar tipo de fuente\<close>.
\<close>

theorem merge_group_result:
  fixes grp :: "detection list"
  defines "L \<equiv> min_of (map x_min grp)" and "T \<equiv> min_of (map y_min grp)"
    and "R \<equiv> max_of (map x_max grp)" and "B \<equiv> max_of (map y_max grp)"
  shows "(1 < length grp \<longrightarrow>
      text (merge_group grp) = join '' '' (map text (sort_key x_min grp))
      \<and> sorted (map x_min (sort_key x_min grp))
      \<and> mset (sort_key x_min grp) = mset grp
      \<and> filter (\<lambda>r. x_min r = k) (sort_key x_min grp) = filter (\<lambda>r. x_min r = k) grp
      \<and> confidence (merge_group grp) = sum_list (map confidence grp) / real (length grp)
      \<and> bbox (merge_group grp) = Box (L, T) (R, T) (R, B) (L, B)
      \<and> L \<le> R \<and> T \<le> B
      \<and> (\<forall>m \<in> set grp. L \<le> x_min m \<and> x_max m \<le> R \<and> T \<le> y_min m \<and> y_max m \<le> B)
      \<and> (\<forall>l t r b. (\<forall>m \<in> set grp. l \<le> x_min m \<and> x_max m \<le> r \<and> t \<le> y_min m \<and> y_max m \<le> b)
            \<longrightarrow> l \<le> L \<and> R \<le> r \<and> t \<le> T \<and> B \<le> b)
      \<and> x_min (merge_group grp) = L \<and> y_min (merge_group grp) = T
      \<and> x_max (merge_group grp) = R \<and> y_max (merge_group grp) = B
      \<and> merged_from (merge_group grp) = Some (length grp))
    \<and> (grp \<in> set (build_groups th (sort_reading_order results)) \<and> 1 < length grp
         \<longrightarrow> merge_group grp \<in> set (merge_similar_boxes results th))
    \<and> merge_similar_boxes
        [\<lparr>bbox = Box (60, 100) (300, 100) (300, 120) (60, 120), text = ''Eliminar tipo de fuente'',
          confidence = 8 / 10, original_bbox = None, merged_from = None\<rparr>,
         \<lparr>bbox = Box (10, 100) (40, 100) (40, 120) (10, 120), text = ''44'',
          confidence = 9 / 10, original_bbox = None, merged_from = None\<rparr>] (2 / 10)
       = [\<lparr>bbox = Box (10, 100) (300, 100) (300, 120) (10, 120),
           text = ''44 Eliminar tipo de fuente'', confidence = 17 / 20,
           original_bbox = None, merged_from = Some 2\<rparr>]"
proof -
  have main: "text (merge_group grp) = join '' '' (map text (sort_key x_min grp))
      \<and> sorted (map x_min (sort_key x_min grp))
      \<and> mset (sort_key x_min grp) = mset grp
      \<and> filter (\<lambda>r. x_min r = k) (sort_key x_min grp) = filter (\<lambda>r. x_min r = k) grp
      \<and> confidence (merge_group grp) = sum_list (map confidence grp) / real (length grp)
      \<and> bbox (merge_group grp) = Box (L, T) (R, T) (R, B) (L, B)
      \<and> L \<le> R \<and> T \<le> B
      \<and> (\<forall>m \<in> set grp. L \<le> x_min m \<and> x_max m \<le> R \<and> T \<le> y_min m \<and> y_max m \<le> B)
      \<and> (\<forall>l t r b. (\<forall>m \<in> set grp. l \<le> x_min m \<and> x_max m \<le> r \<and> t \<le> y_min m \<and> y_max m \<le> b)
            \<longrightarrow> l \<le> L \<and> R \<le> r \<and> t \<le> T \<and> B \<le> b)
      \<and> x_min (merge_group grp) = L \<and> y_min (merge_group grp) = T
      \<and> x_max (merge_group grp) = R \<and> y_max (merge_group grp) = B
      \<and> merged_from (merge_group grp) = Some (length grp)"
    if len: "1 < length grp"
  proof -
    have ne: "grp \<noteq> []" using len by auto
    have t: "text (merge_group grp) = join '' '' (map text (sort_key x_min grp))"
      by (simp add: merge_group_def Let_def)
    have s: "sorted (map x_min (sort_key x_min grp))" by simp
    have p: "mset (sort_key x_min grp) = mset grp" by simp
    have st: "filter (\<lambda>r. x_min r = k) (sort_key x_min grp) = filter (\<lambda>r. x_min r = k) grp"
      by (rule sort_key_stable)
    have c: "confidence (merge_group grp) = sum_list (map confidence grp) / real (length grp)"
      by (simp add: merge_group_def Let_def)
    have b: "bbox (merge_group grp) = Box (L, T) (R, T) (R, B) (L, B)"
      unfolding L_def T_def R_def B_def by (rule merge_group_bbox)
    have o: "L \<le> R" "T \<le> B"
      unfolding L_def T_def R_def B_def using group_envelope_ordered [OF ne] by auto
    have cov: "\<forall>m \<in> set grp. L \<le> x_min m \<and> x_max m \<le> R \<and> T \<le> y_min m \<and> y_max m \<le> B"
      unfolding L_def T_def R_def B_def by (auto intro!: min_of_le max_of_ge)
    have least: "\<forall>l t r b. (\<forall>m \<in> set grp. l \<le> x_min m \<and> x_max m \<le> r \<and> t \<le> y_min m \<and> y_max m \<le> b)
            \<longrightarrow> l \<le> L \<and> R \<le> r \<and> t \<le> T \<and> B \<le> b"
      unfolding L_def T_def R_def B_def using ne
      by (auto intro!: min_of_greatest max_of_least)
    have e: "x_min (merge_group grp) = L" "y_min (merge_group grp) = T"
      "x_max (merge_group grp) = R" "y_max (merge_group grp) = B"
      unfolding L_def T_def R_def B_def using merge_group_envelope [OF ne] by auto
    have mf: "merged_from (merge_group grp) = Some (length grp)"
      by (simp add: merge_group_def Let_def)
    show ?thesis by (intro conjI) (fact t s p st c b o cov least e mf)+
  qed
  have mem: "grp \<in> set (build_groups th (sort_reading_order results)) \<and> 1 < length grp
         \<longrightarrow> merge_group grp \<in> set (merge_similar_boxes results th)"
    using merge_group_in_output by blast
  have ex: "merge_similar_boxes
        [\<lparr>bbox = Box (60, 100) (300, 100) (300, 120) (60, 120), text = ''Eliminar tipo de fuente'',
          confidence = 8 / 10, original_bbox = None, merged_from = None\<rparr>,
         \<lparr>bbox = Box (10, 100) (40, 100) (40, 120) (10, 120), text = ''44'',
          confidence = 9 / 10, original_bbox = None, merged_from = None\<rparr>] (2 / 10)
       = [\<lparr>bbox = Box (10, 100) (300, 100) (300, 120) (10, 120),
           text = ''44 Eliminar tipo de fuente'', confidence = 17 / 20,
           original_bbox = None, merged_from = Some 2\<rparr>]"
    by code_simp
  show ?thesis using main mem ex by blast
qed

text \<open>
  The theorem on the group of the two results of the example, in the order in which the
  merger puts them into the group.
\<close>

theorem merge_group_result_witness:
  "1 < length
      [\<lparr>bbox = Box (10, 100) (40, 100) (40, 120) (10, 120), text = ''44'',
        confidence = 9 / 10, original_bbox = None, merged_from = None\<rparr>,
       \<lparr>bbox = Box (60, 100) (300, 100) (300, 120) (60, 120), text = ''Eliminar tipo de fuente'',
        confidence = 8 / 10, original_bbox = None, merged_from = None\<rparr>]
   \<and> build_groups (2 / 10) (sort_reading_order
        [\<lparr>bbox = Box (60, 100) (300, 100) (300, 120) (60, 120), text = ''Eliminar tipo de fuente'',
          confidence = 8 / 10, original_bbox = None, merged_from = None\<rparr>,
         \<lparr>bbox = Box (10, 100) (40, 100) (40, 120) (10, 120), text = ''44'',
          confidence = 9 / 10, original_bbox = None, merged_from = None\<rparr>])
      = [[\<lparr>bbox = Box (10, 100) (40, 100) (40, 120) (10, 120), text = ''44'',
          confidence = 9 / 10, original_bbox = None, merged_from = None\<rparr>,
         \<lparr>bbox = Box (60, 100) (300, 100) (300, 120) (60, 120), text = ''Eliminar tipo de fuente'',
          confidence = 8 / 10, original_bbox = None, merged_from = None\<rparr>]]
   \<and> text (merge_group
      [\<lparr>bbox = Box (10, 100) (40, 100) (40, 120) (10, 120), text = ''44'',
        confidence = 9 / 10, original_bbox = None, merged_from = None\<rparr>,
       \<lparr>bbox = Box (60, 100) (300, 100) (300, 120) (60, 120), text = ''Eliminar tipo de fuente'',
        confidence = 8 / 10, original_bbox = None, merged_from = None\<rparr>])
      = ''44 Eliminar tipo de fuente''
   \<and> merged_from (merge_group
      [\<lparr>bbox = Box (10, 100) (40, 100) (40, 120) (10, 120), text = ''44'',
        confidence = 9 / 10, original_bbox = None, merged_from = None\<rparr>,
       \<lparr>bbox = Box (60, 100) (300, 100) (300, 120) (60, 120), text = ''Eliminar tipo de fuente'',
        confidence = 8 / 10, original_bbox = None, merged_from = None\<rparr>]) = Some 2
   \<and> confidence (merge_group
      [\<lparr>bbox = Box (10, 100) (40, 100) (40, 120) (10, 120), text = ''44'',
        confidence = 9 / 10, original_bbox = None, merged_from = None\<rparr>,
       \<lparr>bbox = Box (60, 100) (300, 100) (300, 120) (60, 120), text = ''Eliminar tipo de fuente'',
        confidence = 8 / 10, original_bbox = None, merged_from = None\<rparr>]) = 17 / 20"
proof -
  let ?a = "\<lparr>bbox = Box (10, 100) (40, 100) (40, 120) (10, 120), text = ''44'',
        confidence = 9 / 10, original_bbox = None, merged_from = None\<rparr>"
  let ?b = "\<lparr>bbox = Box (60, 100) (300, 100) (300, 120) (60, 120), text = ''Eliminar tipo de fuente'',
        confidence = 8 / 10, original_bbox = None, merged_from = None\<rparr>"
  have h: "1 < length [?a, ?b]" by simp
  have g: "build_groups (2 / 10) (sort_reading_order [?b, ?a]) = [[?a, ?b]]" by code_simp
  note t = merge_group_result [of "[?a, ?b]" 10 "2 / 10" "[?b, ?a]"]
  have j: "join '' '' (map text (sort_key x_min [?a, ?b])) = ''44 Eliminar tipo de fuente''"
    by code_simp
  have "text (merge_group [?a, ?b]) = join '' '' (map text (sort_key x_min [?a, ?b]))"
    using t h by blast
  then have x: "text (merge_group [?a, ?b]) = ''44 Eliminar tipo de fuente''" using j by simp
  have "merged_from (merge_group [?a, ?b]) = Some (length [?a, ?b])" using t h by blast
  then have m: "merged_from (merge_group [?a, ?b]) = Some 2" by simp
  have "confidence (merge_group [?a, ?b])
      = sum_list (map confidence [?a, ?b]) / real (length [?a, ?b])"
    using t h by blast
  then have c: "confidence (merge_group [?a, ?b]) = 17 / 20" by simp
  show ?thesis by (intro conjI) (fact h g x m c)+
qed

end
